theory Spec2Isabelle
  imports Complex_Main "HOL-Library.Log_Nat"
begin

section \<open>JavaScript values of the request payloads\<close>

text \<open>
  The handlers of \<^verbatim>\<open>server.js\<close> read fields of \<^verbatim>\<open>req.body\<close>,
  \<^verbatim>\<open>req.query\<close> and of the stored rows without checking their type, so a field is a
  JavaScript value. The model covers the primitive values: an absent field
  (\<^verbatim>\<open>undefined\<close>), \<^verbatim>\<open>null\<close>, booleans, numbers and strings. Arrays and nested
  objects as field values are outside the model.

  A number is \<open>Fin q\<close> for the finite double of value \<open>q\<close>, \<^verbatim>\<open>NaN\<close> or an
  infinity; the number that a literal of value \<open>q\<close> denotes is \<open>roundDouble q\<close>.
  The sign of zero is not modelled. A string is a list of 8-bit characters.
\<close>

datatype jsnum = Fin rat | NaN | PInf | NInf

datatype jsval = Undefined | Null | JBool bool | JNum jsnum | JStr string

definition js_neg :: "jsnum \<Rightarrow> jsnum" where
  "js_neg n = (case n of Fin r \<Rightarrow> Fin (- r) | NaN \<Rightarrow> NaN | PInf \<Rightarrow> NInf | NInf \<Rightarrow> PInf)"

subsection \<open>Rounding to a double\<close>

text \<open>
  Every arithmetic result and every number read from text is rounded to the nearest
  IEEE 754 double, ties to the even significand: with \<open>2^e \<le> q < 2^(e+1)\<close> and
  \<open>e\<close> at least \<open>-1022\<close> (below that the doubles are subnormal), the doubles near
  \<open>q\<close> are the multiples of \<open>2^(e-52)\<close>, and a result of \<open>2^1024\<close> or more is
  \<^verbatim>\<open>Infinity\<close>.
\<close>

definition binaryExponent :: "rat \<Rightarrow> int" where
  "binaryExponent q =
     (let (p, d) = quotient_of q;
          e0 = bitlen p - bitlen d
      in if power_int 2 e0 \<le> q then e0 else e0 - 1)"

definition roundHalfEven :: "rat \<Rightarrow> int" where
  "roundHalfEven x =
     (let f = \<lfloor>x\<rfloor>;
          r = x - of_int f
      in if r < 1 / 2 then f
         else if 1 / 2 < r then f + 1
         else if even f then f else f + 1)"

definition roundPositive :: "rat \<Rightarrow> jsnum" where
  "roundPositive q =
     (let e = max (binaryExponent q) (- 1022);
          ulp = power_int 2 (e - 52);
          v = of_int (roundHalfEven (q / ulp)) * ulp
      in if power_int 2 1024 \<le> v then PInf else Fin v)"

definition roundDouble :: "rat \<Rightarrow> jsnum" where
  "roundDouble q =
     (if q = 0 then Fin 0
      else if 0 < q then roundPositive q
      else js_neg (roundPositive (- q)))"

text \<open>\<^verbatim>\<open>a * b\<close> and \<^verbatim>\<open>a + b\<close> on numbers.\<close>

fun js_mul :: "jsnum \<Rightarrow> jsnum \<Rightarrow> jsnum" where
  "js_mul NaN _ = NaN"
| "js_mul _ NaN = NaN"
| "js_mul (Fin a) (Fin b) = roundDouble (a * b)"
| "js_mul (Fin a) PInf = (if a = 0 then NaN else if 0 < a then PInf else NInf)"
| "js_mul (Fin a) NInf = (if a = 0 then NaN else if 0 < a then NInf else PInf)"
| "js_mul PInf (Fin b) = (if b = 0 then NaN else if 0 < b then PInf else NInf)"
| "js_mul NInf (Fin b) = (if b = 0 then NaN else if 0 < b then NInf else PInf)"
| "js_mul PInf PInf = PInf"
| "js_mul PInf NInf = NInf"
| "js_mul NInf PInf = NInf"
| "js_mul NInf NInf = PInf"

fun js_add :: "jsnum \<Rightarrow> jsnum \<Rightarrow> jsnum" where
  "js_add NaN _ = NaN"
| "js_add _ NaN = NaN"
| "js_add (Fin a) (Fin b) = roundDouble (a + b)"
| "js_add (Fin a) PInf = PInf"
| "js_add (Fin a) NInf = NInf"
| "js_add PInf (Fin b) = PInf"
| "js_add NInf (Fin b) = NInf"
| "js_add PInf PInf = PInf"
| "js_add PInf NInf = NaN"
| "js_add NInf PInf = NaN"
| "js_add NInf NInf = NInf"

text \<open>\<^verbatim>\<open>ToBoolean\<close>: what \<^verbatim>\<open>!x\<close>, \<^verbatim>\<open>x || y\<close> and \<^verbatim>\<open>x ? a : b\<close> test.\<close>

fun truthy :: "jsval \<Rightarrow> bool" where
  "truthy Undefined = False"
| "truthy Null = False"
| "truthy (JBool b) = b"
| "truthy (JNum (Fin r)) = (r \<noteq> 0)"
| "truthy (JNum NaN) = False"
| "truthy (JNum PInf) = True"
| "truthy (JNum NInf) = True"
| "truthy (JStr s) = (s \<noteq> [])"

definition js_or :: "jsval \<Rightarrow> jsval \<Rightarrow> jsval" where
  "js_or a b = (if truthy a then a else b)"

text \<open>\<^verbatim>\<open>a === b\<close>: equal values of the same type, \<^verbatim>\<open>NaN\<close> equal to nothing.\<close>

definition strict_eq :: "jsval \<Rightarrow> jsval \<Rightarrow> bool" where
  "strict_eq a b = (a = b \<and> a \<noteq> JNum NaN)"

subsection \<open>Strings to numbers\<close>

text \<open>
  \<^verbatim>\<open>Number(s)\<close> on a string follows the grammar \<^verbatim>\<open>StringNumericLiteral\<close> of
  ECMAScript: surrounding white space is dropped, the empty string is \<^verbatim>\<open>0\<close>, a
  signed decimal literal with optional fraction and exponent, \<^verbatim>\<open>Infinity\<close>, or an
  unsigned literal in base 16, 8 or 2 is its value rounded to a double, every other
  string is \<^verbatim>\<open>NaN\<close>.
\<close>

definition isStrWhiteSpaceChar :: "char \<Rightarrow> bool" where
  "isStrWhiteSpaceChar c = ((of_char c :: nat) \<in> {9, 10, 11, 12, 13, 32, 160})"

definition trimString :: "string \<Rightarrow> string" where
  "trimString s = rev (dropWhile isStrWhiteSpaceChar (rev (dropWhile isStrWhiteSpaceChar s)))"

definition isDigit :: "char \<Rightarrow> bool" where
  "isDigit c = (c \<in> set ''0123456789'')"

fun digitValue :: "char \<Rightarrow> nat option" where
  "digitValue c =
     (let n = (of_char c :: nat) in
      if 48 \<le> n \<and> n \<le> 57 then Some (n - 48)
      else if 97 \<le> n \<and> n \<le> 102 then Some (n - 87)
      else if 65 \<le> n \<and> n \<le> 70 then Some (n - 55)
      else None)"

text \<open>The value of a run of digits of the base, most significant first.\<close>

fun digitsValue :: "nat \<Rightarrow> nat \<Rightarrow> string \<Rightarrow> nat option" where
  "digitsValue base acc [] = Some acc"
| "digitsValue base acc (c # cs) =
     (case digitValue c of
        None \<Rightarrow> None
      | Some d \<Rightarrow> if d < base then digitsValue base (acc * base + d) cs else None)"

definition parseDigits :: "nat \<Rightarrow> string \<Rightarrow> nat option" where
  "parseDigits base s = (if s = [] then None else digitsValue base 0 s)"

definition parseExponent :: "string \<Rightarrow> int option" where
  "parseExponent s =
     (case s of
        [] \<Rightarrow> None
      | c # cs \<Rightarrow>
          if c = CHR ''+'' then map_option int (parseDigits 10 cs)
          else if c = CHR ''-'' then map_option (\<lambda>n. - int n) (parseDigits 10 cs)
          else map_option int (parseDigits 10 s))"

definition parseMantissa :: "string \<Rightarrow> rat option" where
  "parseMantissa s =
     (let ip = takeWhile (\<lambda>c. c \<noteq> CHR ''.'') s;
          rest = dropWhile (\<lambda>c. c \<noteq> CHR ''.'') s
      in if rest = [] then map_option of_nat (parseDigits 10 ip)
         else let fp = tl rest
              in if ip = [] \<and> fp = [] then None
                 else (case (digitsValue 10 0 ip, digitsValue 10 0 fp) of
                         (Some i, Some f) \<Rightarrow> Some (of_nat i + of_nat f / 10 ^ length fp)
                       | _ \<Rightarrow> None))"

definition isExpChar :: "char \<Rightarrow> bool" where
  "isExpChar c = (c = CHR ''e'' \<or> c = CHR ''E'')"

definition parseUnsignedDecimal :: "string \<Rightarrow> jsnum" where
  "parseUnsignedDecimal s =
     (if s = ''Infinity'' then PInf
      else let m = takeWhile (\<lambda>c. \<not> isExpChar c) s;
               rest = dropWhile (\<lambda>c. \<not> isExpChar c) s
           in (case parseMantissa m of
                 None \<Rightarrow> NaN
               | Some v \<Rightarrow>
                   if rest = [] then roundDouble v
                   else (case parseExponent (tl rest) of
                           None \<Rightarrow> NaN
                         | Some e \<Rightarrow> roundDouble (v * power_int 10 e))))"

definition parseNonDecimal :: "string \<Rightarrow> jsnum option" where
  "parseNonDecimal s =
     (case s of
        z # x # ds \<Rightarrow>
          if z \<noteq> CHR ''0'' then None
          else let base = (if x = CHR ''x'' \<or> x = CHR ''X'' then 16
                           else if x = CHR ''o'' \<or> x = CHR ''O'' then 8
                           else if x = CHR ''b'' \<or> x = CHR ''B'' then 2
                           else (0::nat))
               in if base = 0 then None
                  else Some (case parseDigits base ds of
                               None \<Rightarrow> NaN | Some n \<Rightarrow> roundDouble (of_nat n))
      | _ \<Rightarrow> None)"

definition StringToNumber :: "string \<Rightarrow> jsnum" where
  "StringToNumber s =
     (let t = trimString s
      in if t = [] then Fin 0
         else (case parseNonDecimal t of
                 Some n \<Rightarrow> n
               | None \<Rightarrow>
                   (case t of
                      c # cs \<Rightarrow>
                        if c = CHR ''+'' then parseUnsignedDecimal cs
                        else if c = CHR ''-'' then js_neg (parseUnsignedDecimal cs)
                        else parseUnsignedDecimal t
                    | [] \<Rightarrow> Fin 0)))"

text \<open>\<^verbatim>\<open>Number(x)\<close>.\<close>

fun ToNumber :: "jsval \<Rightarrow> jsnum" where
  "ToNumber Undefined = NaN"
| "ToNumber Null = Fin 0"
| "ToNumber (JBool b) = (if b then Fin 1 else Fin 0)"
| "ToNumber (JNum n) = n"
| "ToNumber (JStr s) = StringToNumber s"
subsection \<open>Numbers to strings\<close>

text \<open>
  \<^verbatim>\<open>String(x)\<close> on a number (\<^verbatim>\<open>Number::toString\<close>, radix 10): the digits
  \<open>s\<close> are the fewest, \<open>k\<close> of them, for which \<open>s * 10^(n-k)\<close> rounds to the number,
  the closest such value when there are several; plain notation is used for
  \<open>-6 < n \<le> 21\<close> and exponent notation otherwise. Seventeen digits always do for a
  double; a rational that is no double is cut to seventeen digits.
\<close>

function digitsOf :: "nat \<Rightarrow> string" where
  "digitsOf n =
     (if n < 10 then [char_of (48 + n)]
      else digitsOf (n div 10) @ [char_of (48 + n mod 10)])"
  by pat_completeness auto
termination
  by (relation "measure id") auto

definition decimalExponent :: "rat \<Rightarrow> int" where
  "decimalExponent q =
     (let (p, d) = quotient_of q;
          n0 = int (length (digitsOf (nat p))) - int (length (digitsOf (nat d)))
      in if power_int 10 n0 \<le> q then n0 + 1 else n0)"

text \<open>
  The pairs \<open>(s, n)\<close> with \<open>k\<close> digits that round to \<open>r\<close>, where
  \<open>10^(n0-1) \<le> r < 10^n0\<close>: the two neighbours of \<open>r\<close> and, for one digit, \<open>10^n0\<close>.
\<close>

definition candidates :: "rat \<Rightarrow> int \<Rightarrow> nat \<Rightarrow> (int \<times> int) list" where
  "candidates r n0 k =
     (let scale = power_int 10 (n0 - int k);
          lo = \<lfloor>r / scale\<rfloor>
      in [(s, n0). s \<leftarrow> [lo, lo + 1],
            10 ^ (k - 1) \<le> s \<and> s < 10 ^ k \<and> roundDouble (of_int s * scale) = Fin r] @
         (if k = 1 \<and> roundDouble (power_int 10 n0) = Fin r then [(1, n0 + 1)] else []))"

definition closer :: "rat \<Rightarrow> nat \<Rightarrow> int \<times> int \<Rightarrow> int \<times> int \<Rightarrow> int \<times> int" where
  "closer r k a b =
     (let da = \<bar>of_int (fst a) * power_int 10 (snd a - int k) - r\<bar>;
          db = \<bar>of_int (fst b) * power_int 10 (snd b - int k) - r\<bar>
      in if da < db then a else if db < da then b else if even (fst a) then a else b)"

fun shortest :: "rat \<Rightarrow> int \<Rightarrow> nat \<Rightarrow> nat \<Rightarrow> (int \<times> int) option" where
  "shortest r n0 k 0 = None"
| "shortest r n0 k (Suc fuel) =
     (case candidates r n0 k of
        [] \<Rightarrow> shortest r n0 (Suc k) fuel
      | c # cs \<Rightarrow> Some (foldl (closer r k) c cs))"

definition layout :: "string \<Rightarrow> int \<Rightarrow> string" where
  "layout ds n =
     (let k = int (length ds)
      in if k \<le> n \<and> n \<le> 21 then ds @ replicate (nat (n - k)) CHR ''0''
         else if 0 < n \<and> n \<le> 21 then take (nat n) ds @ ''.'' @ drop (nat n) ds
         else if - 6 < n \<and> n \<le> 0 then ''0.'' @ replicate (nat (- n)) CHR ''0'' @ ds
         else let e = n - 1;
                  ex = (if 0 \<le> e then ''+'' else ''-'') @ digitsOf (nat \<bar>e\<bar>)
              in if k = 1 then ds @ ''e'' @ ex
                 else hd ds # ''.'' @ tl ds @ ''e'' @ ex)"

definition positiveToString :: "rat \<Rightarrow> string" where
  "positiveToString r =
     (let n0 = decimalExponent r
      in case shortest r n0 1 17 of
           Some (s, n) \<Rightarrow> layout (digitsOf (nat s)) n
         | None \<Rightarrow> layout (digitsOf (nat \<lfloor>r / power_int 10 (n0 - 17)\<rfloor>)) n0)"

fun NumberToString :: "jsnum \<Rightarrow> string" where
  "NumberToString NaN = ''NaN''"
| "NumberToString PInf = ''Infinity''"
| "NumberToString NInf = ''-Infinity''"
| "NumberToString (Fin r) =
     (if r = 0 then ''0''
      else if r < 0 then ''-'' @ positiveToString (- r)
      else positiveToString r)"

text \<open>\<^verbatim>\<open>String(x)\<close>: what a template literal and \<^verbatim>\<open>RegExp.prototype.test\<close> apply.\<close>

fun ToString :: "jsval \<Rightarrow> string" where
  "ToString Undefined = ''undefined''"
| "ToString Null = ''null''"
| "ToString (JBool b) = (if b then ''true'' else ''false'')"
| "ToString (JNum n) = NumberToString n"
| "ToString (JStr s) = s"

subsection \<open>JSON\<close>

text \<open>
  \<^verbatim>\<open>JSON.stringify\<close> writes \<^verbatim>\<open>NaN\<close> and the infinities as \<^verbatim>\<open>null\<close> and
  leaves out an absent field; every other primitive value is read back as it was.
  This is what a client finds in a response sent with \<^verbatim>\<open>res.json\<close> and what
  \<^verbatim>\<open>JSON.parse\<close> finds in the file.
\<close>

fun json_value :: "jsval \<Rightarrow> jsval" where
  "json_value (JNum NaN) = Null"
| "json_value (JNum PInf) = Null"
| "json_value (JNum NInf) = Null"
| "json_value v = v"

section \<open>The JSON file of requests\<close>

text \<open>
  The body of \<^verbatim>\<open>POST /api/requests\<close> as the handler destructures it, and a stored
  row: the body's fields and the five the handler adds. An absent field is
  \<open>Undefined\<close>. The fields \<^verbatim>\<open>id\<close> and \<^verbatim>\<open>notes\<close> are \<open>id_field\<close> and
  \<open>notes_field\<close> here.
\<close>

record body =
  fullName :: jsval
  email :: jsval
  phone :: jsval
  serviceType :: jsval
  propertyType :: jsval
  address :: jsval
  bedrooms :: jsval
  bathrooms :: jsval
  frequency :: jsval
  date :: jsval
  time :: jsval
  notes_field :: jsval

record request = body +
  id_field :: jsval
  createdAt :: jsval
  status :: jsval
  dateTime :: jsval
  estimateUSD :: jsval

text \<open>A row as JSON carries it.\<close>

definition json_row :: "request \<Rightarrow> request" where
  "json_row r =
     \<lparr>fullName = json_value (fullName r),
      email = json_value (email r),
      phone = json_value (phone r),
      serviceType = json_value (serviceType r),
      propertyType = json_value (propertyType r),
      address = json_value (address r),
      bedrooms = json_value (bedrooms r),
      bathrooms = json_value (bathrooms r),
      frequency = json_value (frequency r),
      date = json_value (date r),
      time = json_value (time r),
      notes_field = json_value (notes_field r),
      id_field = json_value (id_field r),
      createdAt = json_value (createdAt r),
      status = json_value (status r),
      dateTime = json_value (dateTime r),
      estimateUSD = json_value (estimateUSD r)\<rparr>"

text \<open>
  \<^verbatim>\<open>data/requests.json\<close>: missing, blank, not parseable, JSON that is not an array,
  or the JSON text of an array of rows. Every element of the array is an object
  with the fields of a row, any of them possibly absent. \<open>Rows rs\<close> is the text
  that \<^verbatim>\<open>JSON.stringify\<close> writes for \<open>rs\<close>: parsing it gives
  \<open>map json_row rs\<close>, which is \<open>rs\<close> itself when no field is \<^verbatim>\<open>NaN\<close> or an
  infinity, and what is written is kept in that form.
\<close>

datatype data_file = NoFile | Blank | Malformed | NotArray | Rows "request list"

definition ensureDataFile :: "data_file \<Rightarrow> data_file" where
  "ensureDataFile f = (if f = NoFile then Rows [] else f)"

definition readRequestsSafe :: "data_file \<Rightarrow> request list \<times> data_file" where
  "readRequestsSafe f =
     (let f1 = ensureDataFile f
      in case f1 of
           Blank \<Rightarrow> ([], f1)
         | NotArray \<Rightarrow> ([], f1)
         | Rows rs \<Rightarrow> (map json_row rs, f1)
         | Malformed \<Rightarrow> ([], Rows [])
         | NoFile \<Rightarrow> ([], Rows []))"

definition writeRequests :: "request list \<Rightarrow> data_file \<Rightarrow> data_file" where
  "writeRequests rows f = (let f1 = ensureDataFile f in Rows (map json_row rows))"
section \<open>Helpers\<close>

text \<open>
  The two patterns \<^verbatim>\<open>/^\d{4}-\d{2}-\d{2}$/\<close> and \<^verbatim>\<open>/^\d{2}:\d{2}$/\<close> are
  sequences of items, a digit or a literal character, that the whole string has to
  match. \<^verbatim>\<open>test\<close> converts its argument to a string first.
\<close>

datatype item = D | Lit char

fun matches :: "item list \<Rightarrow> string \<Rightarrow> bool" where
  "matches [] [] = True"
| "matches (D # ps) (c # cs) = (isDigit c \<and> matches ps cs)"
| "matches (Lit x # ps) (c # cs) = (c = x \<and> matches ps cs)"
| "matches _ _ = False"

definition isValidDateYYYYMMDD :: "jsval \<Rightarrow> bool" where
  "isValidDateYYYYMMDD dateStr =
     matches [D, D, D, D, Lit CHR ''-'', D, D, Lit CHR ''-'', D, D] (ToString dateStr)"

definition isValidTimeHHMM :: "jsval \<Rightarrow> bool" where
  "isValidTimeHHMM timeStr = matches [D, D, Lit CHR '':'', D, D] (ToString timeStr)"

definition makeDateTimeKey :: "jsval \<Rightarrow> jsval \<Rightarrow> string" where
  "makeDateTimeKey d t = ToString d @ '' '' @ ToString t"

section \<open>The API\<close>

text \<open>
  A handler takes the request and the file and returns the response and the file
  after it. An error response is \<open>Inl (HttpError code message)\<close>, a success is
  \<open>Inr (code, body)\<close> with the body as the client reads it from the JSON sent.
\<close>

datatype http_error = HttpError nat string

text \<open>
  The test both handlers run on the rows:
  \<^verbatim>\<open>requests.some((r) => r.dateTime === dateTime && r.status !== "cancelled")\<close>.
\<close>

definition conflict :: "request list \<Rightarrow> string \<Rightarrow> bool" where
  "conflict requests dt =
     list_ex (\<lambda>r. strict_eq (dateTime r) (JStr dt) \<and> \<not> strict_eq (status r) (JStr ''cancelled''))
       requests"

subsection \<open>GET /api/check\<close>

record check_reply =
  available :: bool
  dateTime_out :: string

definition get_api_check ::
  "jsval \<Rightarrow> jsval \<Rightarrow> data_file \<Rightarrow> (http_error + nat \<times> check_reply) \<times> data_file" where
  "get_api_check qdate qtime f =
     (if \<not> truthy qdate \<or> \<not> truthy qtime then
        (Inl (HttpError 400 ''Missing date or time.''), f)
      else if \<not> isValidDateYYYYMMDD qdate then
        (Inl (HttpError 400 ''Date must be YYYY-MM-DD.''), f)
      else if \<not> isValidTimeHHMM qtime then
        (Inl (HttpError 400 ''Time must be HH:MM (24-hour).''), f)
      else
        let (requests, f1) = readRequestsSafe f;
            dt = makeDateTimeKey qdate qtime
        in (Inr (200, \<lparr>available = \<not> conflict requests dt, dateTime_out = dt\<rparr>), f1))"

subsection \<open>POST /api/requests\<close>

text \<open>
  What the handler takes from its environment: the two parts of the generated id,
  \<^verbatim>\<open>Math.random().toString(16).slice(2)\<close> and \<^verbatim>\<open>Date.now().toString(16)\<close>, and
  \<^verbatim>\<open>new Date().toISOString()\<close>.
\<close>

record env =
  randomHex :: string
  nowHex :: string
  nowISO :: string

definition estimate :: "'a body_scheme \<Rightarrow> jsnum" where
  "estimate b =
     (let base = (if strict_eq (serviceType b) (JStr ''deep'') then Fin 180 else Fin 120);
          bed = js_mul (ToNumber (js_or (bedrooms b) (JNum (Fin 0)))) (Fin 20);
          bath = js_mul (ToNumber (js_or (bathrooms b) (JNum (Fin 0)))) (Fin 15);
          commercial = (if strict_eq (propertyType b) (JStr ''commercial'') then Fin 60 else Fin 0)
      in js_add (js_add (js_add base bed) bath) commercial)"

definition newRequest :: "env \<Rightarrow> body \<Rightarrow> request" where
  "newRequest e b =
     \<lparr>fullName = fullName b,
      email = email b,
      phone = phone b,
      serviceType = serviceType b,
      propertyType = propertyType b,
      address = address b,
      bedrooms = (if truthy (bedrooms b) then JNum (ToNumber (bedrooms b)) else Null),
      bathrooms = (if truthy (bathrooms b) then JNum (ToNumber (bathrooms b)) else Null),
      frequency = js_or (frequency b) (JStr ''one-time''),
      date = date b,
      time = time b,
      notes_field = js_or (notes_field b) (JStr []),
      id_field = JStr (randomHex e @ nowHex e),
      createdAt = JStr (nowISO e),
      status = JStr ''pending'',
      dateTime = JStr (makeDateTimeKey (date b) (time b)),
      estimateUSD = JNum (estimate b)\<rparr>"

text \<open>The first test of the handler, on the eight required fields.\<close>

definition missing_required :: "body \<Rightarrow> bool" where
  "missing_required b =
     (\<not> truthy (fullName b) \<or> \<not> truthy (email b) \<or> \<not> truthy (phone b) \<or>
      \<not> truthy (serviceType b) \<or> \<not> truthy (propertyType b) \<or> \<not> truthy (address b) \<or>
      \<not> truthy (date b) \<or> \<not> truthy (time b))"

definition post_api_requests ::
  "env \<Rightarrow> body \<Rightarrow> data_file \<Rightarrow> (http_error + nat \<times> request) \<times> data_file" where
  "post_api_requests e b f =
     (if missing_required b then
        (Inl (HttpError 400 ''Missing required fields.''), f)
      else if \<not> isValidDateYYYYMMDD (date b) then
        (Inl (HttpError 400 ''Date must be YYYY-MM-DD.''), f)
      else if \<not> isValidTimeHHMM (time b) then
        (Inl (HttpError 400 ''Time must be HH:MM (24-hour).''), f)
      else
        let (requests, f1) = readRequestsSafe f;
            dt = makeDateTimeKey (date b) (time b)
        in if conflict requests dt then
             (Inl (HttpError 409 ''That date/time is already booked.''), f1)
           else
             let r = newRequest e b
             in (Inr (201, json_row r), writeRequests (r # requests) f1))"

subsection \<open>The admin routes\<close>

text \<open>
  Both are registered behind the middleware \<^verbatim>\<open>requireAdminKey\<close>, which compares
  \<^verbatim>\<open>process.env.ADMIN_KEY || ""\<close> with the header \<^verbatim>\<open>x-admin-key\<close> (or
  \<^verbatim>\<open>""\<close>) and either answers itself or calls \<^verbatim>\<open>next()\<close>, the handler.
\<close>

definition requireAdminKey :: "string \<Rightarrow> string \<Rightarrow> http_error option" where
  "requireAdminKey expected got =
     (if expected = [] then Some (HttpError 500 ''ADMIN_KEY not set.'')
      else if got \<noteq> expected then Some (HttpError 401 ''Unauthorized.'')
      else None)"

definition behind_admin_key ::
  "string \<Rightarrow> string \<Rightarrow> (data_file \<Rightarrow> (http_error + 'a) \<times> data_file) \<Rightarrow>
   data_file \<Rightarrow> (http_error + 'a) \<times> data_file" where
  "behind_admin_key expected got handler f =
     (case requireAdminKey expected got of
        Some err \<Rightarrow> (Inl err, f)
      | None \<Rightarrow> handler f)"

text \<open>
  The two handlers. \<^verbatim>\<open>findIndex\<close> gives the first position whose element passes
  the test, and \<open>None\<close> stands for its \<^verbatim>\<open>-1\<close>.
\<close>

fun findIndex :: "('a \<Rightarrow> bool) \<Rightarrow> 'a list \<Rightarrow> nat option" where
  "findIndex p [] = None"
| "findIndex p (x # xs) = (if p x then Some 0 else map_option Suc (findIndex p xs))"

definition get_api_admin_requests :: "data_file \<Rightarrow> (http_error + nat \<times> request list) \<times> data_file" where
  "get_api_admin_requests f =
     (let (requests, f1) = readRequestsSafe f in (Inr (200, map json_row requests), f1))"

definition allowed :: "jsval list" where
  "allowed = [JStr ''pending'', JStr ''confirmed'', JStr ''completed'', JStr ''cancelled'']"

definition patch_api_admin_requests ::
  "string \<Rightarrow> jsval \<Rightarrow> data_file \<Rightarrow> (http_error + nat \<times> request) \<times> data_file" where
  "patch_api_admin_requests ident st f =
     (if st \<notin> set allowed then (Inl (HttpError 400 ''Invalid status.''), f)
      else
        let (requests, f1) = readRequestsSafe f
        in case findIndex (\<lambda>r. strict_eq (id_field r) (JStr ident)) requests of
             None \<Rightarrow> (Inl (HttpError 404 ''Not found.''), f1)
           | Some idx \<Rightarrow>
               let requests' = requests[idx := (requests ! idx)\<lparr>status := st\<rparr>]
               in (Inr (200, json_row (requests' ! idx)), writeRequests requests' f1))"

section \<open>Sequences of calls and sample requests\<close>

text \<open>Creations one after the other, each on the file the one before left.\<close>

fun post_all ::
  "(env \<times> body) list \<Rightarrow> data_file \<Rightarrow> (http_error + nat \<times> request) list \<times> data_file" where
  "post_all [] f = ([], f)"
| "post_all ((e, b) # cs) f =
     (let (res, f1) = post_api_requests e b f;
          (ress, f2) = post_all cs f1
      in (res # ress, f2))"

text \<open>The rows that a list of responses reports as created, oldest first.\<close>

fun created :: "(http_error + nat \<times> request) list \<Rightarrow> request list" where
  "created [] = []"
| "created (Inl err # ress) = created ress"
| "created (Inr (c, r) # ress) = r # created ress"

text \<open>Calls of any of the four routes, one after the other, and their responses.\<close>

datatype call =
  Create env body
| Transition string jsval
| Availability jsval jsval
| Listing

datatype reply =
  Created "http_error + nat \<times> request"
| Transitioned "http_error + nat \<times> request"
| Checked "http_error + nat \<times> check_reply"
| Listed "http_error + nat \<times> request list"

fun call_api :: "call \<Rightarrow> data_file \<Rightarrow> reply \<times> data_file" where
  "call_api (Create e b) f = map_prod Created id (post_api_requests e b f)"
| "call_api (Transition ident st) f = map_prod Transitioned id (patch_api_admin_requests ident st f)"
| "call_api (Availability d t) f = map_prod Checked id (get_api_check d t f)"
| "call_api Listing f = map_prod Listed id (get_api_admin_requests f)"

fun run :: "call list \<Rightarrow> data_file \<Rightarrow> reply list \<times> data_file" where
  "run [] f = ([], f)"
| "run (c # cs) f =
     (let (rep, f1) = call_api c f;
          (reps, f2) = run cs f1
      in (rep # reps, f2))"

definition sample_env :: env where
  "sample_env =
     \<lparr>randomHex = ''8f3a1c'', nowHex = ''19a2b3c4d5e'', nowISO = ''2025-05-20T09:30:00.000Z''\<rparr>"

definition later_env :: env where
  "later_env =
     \<lparr>randomHex = ''c41d07'', nowHex = ''19a2b3c5f00'', nowISO = ''2025-05-20T09:31:10.000Z''\<rparr>"

definition third_env :: env where
  "third_env =
     \<lparr>randomHex = ''07be52'', nowHex = ''19a2b3c7a10'', nowISO = ''2025-05-20T09:33:05.000Z''\<rparr>"

definition sample_body :: body where
  "sample_body =
     \<lparr>fullName = JStr ''Ada Lovelace'',
      email = JStr ''ada@example.com'',
      phone = JStr ''555-0100'',
      serviceType = JStr ''standard'',
      propertyType = JStr ''residential'',
      address = JStr ''1 Main St'',
      bedrooms = JNum (Fin 3),
      bathrooms = JNum (Fin 2),
      frequency = Undefined,
      date = JStr ''2025-06-01'',
      time = JStr ''10:00'',
      notes_field = Undefined\<rparr>"

definition negative_body :: body where
  "negative_body = sample_body\<lparr>bedrooms := JNum (Fin (- 2)), bathrooms := Undefined\<rparr>"

definition text_body :: body where
  "text_body = sample_body\<lparr>bedrooms := JStr ''abc'', bathrooms := Undefined\<rparr>"

definition zero_body :: body where
  "zero_body =
     sample_body\<lparr>serviceType := JStr ''deep'', propertyType := JStr ''commercial'',
       bedrooms := JNum (Fin 0), bathrooms := JNum (Fin 0)\<rparr>"

definition later_body :: body where
  "later_body = sample_body\<lparr>fullName := JStr ''Grace Hopper'', time := JStr ''11:00''\<rparr>"

text \<open>
  The file after the sample request has been created on a missing file, and the
  same file once that row is cancelled.
\<close>

definition booked_file :: data_file where
  "booked_file = Rows [newRequest sample_env sample_body]"

definition cancelled_file :: data_file where
  "cancelled_file = Rows [(newRequest sample_env sample_body)\<lparr>status := JStr ''cancelled''\<rparr>]"

text \<open>
  The invariant the data model gives for \<^verbatim>\<open>bedrooms\<close> and \<^verbatim>\<open>bathrooms\<close> of a
  row: \<^verbatim>\<open>null\<close> or a number that is not negative.
\<close>

definition nullable_nonneg_number :: "jsval \<Rightarrow> bool" where
  "nullable_nonneg_number v =
     (case v of Null \<Rightarrow> True | JNum (Fin x) \<Rightarrow> 0 \<le> x | JNum PInf \<Rightarrow> True | _ \<Rightarrow> False)"

text \<open>
  The file is an array in which a row with id \<open>i\<close> holds the slot \<open>dt\<close>: its
  \<^verbatim>\<open>dateTime\<close> is \<open>dt\<close> and its status is not "cancelled".
\<close>

definition holds_slot :: "string \<Rightarrow> string \<Rightarrow> data_file \<Rightarrow> bool" where
  "holds_slot i dt f =
     ((\<exists>rs. f = Rows rs) \<and>
      (\<exists>r \<in> set (fst (readRequestsSafe f)).
         id_field r = JStr i \<and> dateTime r = JStr dt \<and> status r \<noteq> JStr ''cancelled''))"

text \<open>
  A history on an empty store: a booking of the sample slot, its cancellation, a
  second booking of the slot, the first row set to "confirmed", the second row
  cancelled, and a third booking of the slot.
\<close>

definition revival :: "call list" where
  "revival =
     [Create sample_env sample_body,
      Transition ''8f3a1c19a2b3c4d5e'' (JStr ''cancelled''),
      Create later_env sample_body,
      Transition ''8f3a1c19a2b3c4d5e'' (JStr ''confirmed''),
      Transition ''c41d0719a2b3c5f00'' (JStr ''cancelled''),
      Create third_env sample_body]"

text \<open>Another booking and a confirmation of the sample row.\<close>

definition busy_day :: "call list" where
  "busy_day =
     [Create later_env later_body,
      Availability (JStr ''2025-06-01'') (JStr ''10:00''),
      Transition ''8f3a1c19a2b3c4d5e'' (JStr ''confirmed''),
      Listing]"
section \<open>Basic facts\<close>

lemma strict_eq_JStr [simp]: "strict_eq a (JStr s) = (a = JStr s)"
  by (auto simp: strict_eq_def)

subsection \<open>Rounding is exact on small multiples of a quarter\<close>

lemma roundHalfEven_of_int [simp]: "roundHalfEven (of_int m) = m"
  by (simp add: roundHalfEven_def)

text \<open>The exponent found is not above the number: \<open>2^e \<le> q\<close>.\<close>

lemma binaryExponent_le:
  assumes "0 < q"
  shows "power_int 2 (binaryExponent q) \<le> q"
proof -
  obtain p d where pd: "quotient_of q = (p, d)"
    by (cases "quotient_of q")
  then have d: "0 < d" and q: "q = of_int p / of_int d"
    by (simp_all add: quotient_of_denom_pos quotient_of_div)
  from assms d q have p: "0 < p"
    by (simp add: zero_less_divide_iff)
  let ?e0 = "bitlen p - bitlen d"
  show ?thesis
  proof (cases "power_int 2 ?e0 \<le> q")
    case True
    then show ?thesis
      by (simp add: binaryExponent_def pd)
  next
    case False
    have bp: "1 \<le> bitlen p" and bd: "0 \<le> bitlen d"
      using p bitlen_nonneg [of d] by (simp_all add: bitlen_alt_def)
    have "(2::int) ^ nat (bitlen p - 1) \<le> p"
      using bitlen_bounds [OF p] by simp
    then have "(of_int ((2::int) ^ nat (bitlen p - 1)) :: rat) \<le> of_int p"
      by (simp only: of_int_le_iff)
    then have lo: "power_int (2::rat) (bitlen p - 1) \<le> of_int p"
      using bp by (simp add: power_int_def)
    have "d < (2::int) ^ nat (bitlen d)"
      using bitlen_bounds [OF d] by simp
    then have "(of_int d :: rat) < of_int ((2::int) ^ nat (bitlen d))"
      by (simp only: of_int_less_iff)
    then have hi: "(of_int d :: rat) \<le> power_int 2 (bitlen d)"
      using bd by (simp add: power_int_def)
    have "power_int (2::rat) (?e0 - 1) = power_int 2 (bitlen p - 1) / power_int 2 (bitlen d)"
      using power_int_diff [of "2::rat" "bitlen p - 1" "bitlen d"] by (simp add: algebra_simps)
    also have "\<dots> \<le> of_int p / of_int d"
      using lo hi d p by (intro frac_le) simp_all
    also have "\<dots> = q"
      by (simp only: q)
    finally show ?thesis
      using False by (simp add: binaryExponent_def pd)
  qed
qed

lemma roundPositive_exact:
  assumes "0 < q" and "4 * q \<in> \<int>" and "q < 2 ^ 51"
  shows "roundPositive q = Fin q"
proof -
  let ?e = "max (binaryExponent q) (- 1022)"
  have "binaryExponent q < 51"
  proof (rule ccontr)
    assume "\<not> binaryExponent q < 51"
    then have "power_int (2::rat) 51 \<le> power_int 2 (binaryExponent q)"
      by (intro power_int_increasing) simp_all
    with binaryExponent_le [OF assms(1)] assms(3) show False
      by simp
  qed
  then have e: "?e \<le> 50"
    by simp
  from assms(2) obtain k :: int where k: "4 * q = of_int k"
    by (auto elim: Ints_cases)
  define n where "n = nat (50 - ?e)"
  have ulp: "power_int (2::rat) (?e - 52) = 1 / (4 * 2 ^ n)"
  proof -
    have "?e - 52 = - int (n + 2)"
      using e by (simp add: n_def)
    then have "power_int (2::rat) (?e - 52) = 1 / power_int 2 (int (n + 2))"
      by (simp only: power_int_minus_divide)
    also have "\<dots> = 1 / 2 ^ (n + 2)"
      by (simp only: power_int_of_nat)
    finally show ?thesis by simp
  qed
  have "q / power_int 2 (?e - 52) = of_int (k * 2 ^ n)"
    using k by (simp add: ulp algebra_simps)
  then have "roundHalfEven (q / power_int 2 (?e - 52)) = k * 2 ^ n"
    by (simp only: roundHalfEven_of_int)
  moreover have "of_int (k * 2 ^ n) * (1 / (4 * 2 ^ n)) = (of_int k :: rat) / 4"
    by simp
  moreover have "(of_int k :: rat) / 4 = q"
    using k by simp
  ultimately have "of_int (roundHalfEven (q / power_int 2 (?e - 52))) * power_int 2 (?e - 52) = q"
    by (simp only: ulp)
  moreover have "q < power_int 2 1024"
  proof -
    have "(2::rat) ^ 51 \<le> 2 ^ 1024"
      by (intro power_increasing) simp_all
    with assms(3) show ?thesis by simp
  qed
  ultimately show ?thesis
    by (simp add: roundPositive_def Let_def)
qed

lemma roundDouble_exact:
  assumes "4 * q \<in> \<int>" and "\<bar>q\<bar> < 2 ^ 51"
  shows "roundDouble q = Fin q"
proof -
  consider "q = 0" | "0 < q" | "q < 0" by linarith
  then show ?thesis
  proof cases
    case 1
    then show ?thesis by (simp add: roundDouble_def)
  next
    case 2
    with assms show ?thesis
      by (simp add: roundDouble_def roundPositive_exact)
  next
    case 3
    from assms(1) have "4 * (- q) \<in> \<int>"
      by (metis Ints_minus mult_minus_right)
    with 3 assms(2) have "roundPositive (- q) = Fin (- q)"
      by (intro roundPositive_exact) simp_all
    with 3 show ?thesis
      by (simp add: roundDouble_def js_neg_def)
  qed
qed

lemma js_mul_exact:
  "4 * (a * b) \<in> \<int> \<Longrightarrow> \<bar>a * b\<bar> < 2 ^ 51 \<Longrightarrow> js_mul (Fin a) (Fin b) = Fin (a * b)"
  by (simp add: roundDouble_exact)

lemma js_add_exact:
  "4 * (a + b) \<in> \<int> \<Longrightarrow> \<bar>a + b\<bar> < 2 ^ 51 \<Longrightarrow> js_add (Fin a) (Fin b) = Fin (a + b)"
  by (simp add: roundDouble_exact)

subsection \<open>JSON and the file\<close>

lemma json_value_idem [simp]: "json_value (json_value v) = json_value v"
  by (cases v rule: json_value.cases) simp_all

lemma json_row_idem [simp]: "json_row (json_row r) = json_row r"
  by (simp add: json_row_def)

lemma json_row_status:
  "json_row (r\<lparr>status := JStr s\<rparr>) = (json_row r)\<lparr>status := JStr s\<rparr>"
  by (simp add: json_row_def)

lemma json_row_fields [simp]:
  "dateTime (json_row r) = json_value (dateTime r)"
  "status (json_row r) = json_value (status r)"
  "id_field (json_row r) = json_value (id_field r)"
  "bedrooms (json_row r) = json_value (bedrooms r)"
  "bathrooms (json_row r) = json_value (bathrooms r)"
  "estimateUSD (json_row r) = json_value (estimateUSD r)"
  by (simp_all add: json_row_def)

lemma readRequestsSafe_Rows [simp]: "readRequestsSafe (Rows rs) = (map json_row rs, Rows rs)"
  by (simp add: readRequestsSafe_def ensureDataFile_def)

lemma readRequestsSafe_NoFile [simp]: "readRequestsSafe NoFile = ([], Rows [])"
  by (simp add: readRequestsSafe_def ensureDataFile_def)

lemma readRequestsSafe_again:
  "readRequestsSafe (snd (readRequestsSafe f)) = readRequestsSafe f"
  by (cases f) (simp_all add: readRequestsSafe_def ensureDataFile_def)

lemma loaded_json [simp]: "map json_row (fst (readRequestsSafe f)) = fst (readRequestsSafe f)"
  by (cases f) (simp_all add: readRequestsSafe_def ensureDataFile_def)

lemma writeRequests_Rows [simp]: "writeRequests rows f = Rows (map json_row rows)"
  by (simp add: writeRequests_def)

lemma conflict_Nil [simp]: "\<not> conflict [] dt"
  by (simp add: conflict_def)

lemma conflict_Cons:
  "conflict (r # rs) dt \<longleftrightarrow>
     (dateTime r = JStr dt \<and> status r \<noteq> JStr ''cancelled'') \<or> conflict rs dt"
  by (simp add: conflict_def)

lemma conflict_iff:
  "conflict rs dt \<longleftrightarrow> (\<exists>r \<in> set rs. dateTime r = JStr dt \<and> status r \<noteq> JStr ''cancelled'')"
  by (simp add: conflict_def list_ex_iff)

text \<open>
  With the key set and sent, an admin route is its handler; otherwise it answers 500
  or 401 and the file is not touched.
\<close>

lemma behind_admin_key_authorised:
  "expected \<noteq> [] \<Longrightarrow> behind_admin_key expected expected handler f = handler f"
  by (simp add: behind_admin_key_def requireAdminKey_def)

lemma behind_admin_key_refused:
  "expected = [] \<or> got \<noteq> expected \<Longrightarrow>
     snd (behind_admin_key expected got handler f) = f \<and>
     fst (behind_admin_key expected got handler f) \<in>
       {Inl (HttpError 500 ''ADMIN_KEY not set.''), Inl (HttpError 401 ''Unauthorized.'')}"
  by (auto simp add: behind_admin_key_def requireAdminKey_def)

subsection \<open>Creation\<close>

text \<open>A body that passes the three tests and meets no conflict is stored in front.\<close>

lemma post_accepted:
  assumes "\<not> missing_required b" "isValidDateYYYYMMDD (date b)" "isValidTimeHHMM (time b)"
    and "\<not> conflict (fst (readRequestsSafe f)) (makeDateTimeKey (date b) (time b))"
  shows "post_api_requests e b f =
           (Inr (201, json_row (newRequest e b)),
            Rows (json_row (newRequest e b) # fst (readRequestsSafe f)))"
  using assms by (simp add: post_api_requests_def split_beta Let_def)

lemma post_Inr_iff:
  "post_api_requests e b f = (Inr x, f') \<longleftrightarrow>
     \<not> missing_required b \<and> isValidDateYYYYMMDD (date b) \<and> isValidTimeHHMM (time b) \<and>
     \<not> conflict (fst (readRequestsSafe f)) (makeDateTimeKey (date b) (time b)) \<and>
     x = (201, json_row (newRequest e b)) \<and>
     f' = Rows (json_row (newRequest e b) # fst (readRequestsSafe f))"
  by (auto simp add: post_api_requests_def split_beta Let_def)

lemma post_conflict:
  assumes "\<not> missing_required b" "isValidDateYYYYMMDD (date b)" "isValidTimeHHMM (time b)"
    and "conflict (fst (readRequestsSafe f)) (makeDateTimeKey (date b) (time b))"
  shows "post_api_requests e b f =
           (Inl (HttpError 409 ''That date/time is already booked.''), snd (readRequestsSafe f))"
  using assms by (simp add: post_api_requests_def split_beta Let_def)

lemma newRequest_slot:
  "dateTime (json_row (newRequest e b)) = JStr (makeDateTimeKey (date b) (time b))"
  "status (json_row (newRequest e b)) = JStr ''pending''"
  "id_field (json_row (newRequest e b)) = JStr (randomHex e @ nowHex e)"
  by (simp_all add: newRequest_def)
subsection \<open>The status transition\<close>

text \<open>\<^verbatim>\<open>findIndex\<close> gives the first position that passes, and none when nothing does.\<close>

lemma findIndex_None: "findIndex p xs = None \<longleftrightarrow> (\<forall>x \<in> set xs. \<not> p x)"
  by (induction xs) auto

lemma findIndex_Some:
  "findIndex p xs = Some i \<Longrightarrow> i < length xs \<and> p (xs ! i) \<and> (\<forall>j<i. \<not> p (xs ! j))"
proof (induction xs arbitrary: i)
  case Nil
  then show ?case by simp
next
  case (Cons x xs)
  show ?case
  proof (cases "p x")
    case True
    with Cons.prems show ?thesis by simp
  next
    case False
    with Cons.prems obtain k where k: "findIndex p xs = Some k" "i = Suc k"
      by auto
    from Cons.IH [OF k(1)] False k(2) show ?thesis
      by (auto simp: less_Suc_eq_0_disj)
  qed
qed

lemma allowed_JStr: "st \<in> set allowed \<Longrightarrow> \<exists>s. st = JStr s"
  by (auto simp: allowed_def)

text \<open>A transition that finds its row stores the rows read with that one status replaced.\<close>

lemma patch_found:
  assumes "st \<in> set allowed"
    and "findIndex (\<lambda>r. strict_eq (id_field r) (JStr ident)) (fst (readRequestsSafe f)) = Some idx"
  shows "patch_api_admin_requests ident st f =
           (Inr (200, (fst (readRequestsSafe f) ! idx)\<lparr>status := st\<rparr>),
            Rows ((fst (readRequestsSafe f))[idx := (fst (readRequestsSafe f) ! idx)\<lparr>status := st\<rparr>]))"
proof -
  let ?rows = "fst (readRequestsSafe f)"
  let ?r = "(?rows ! idx)\<lparr>status := st\<rparr>"
  from assms(1) obtain s where s: "st = JStr s"
    by (auto dest: allowed_JStr)
  from findIndex_Some [OF assms(2)] have i: "idx < length ?rows"
    by simp
  then have "json_row (?rows ! idx) = ?rows ! idx"
    using loaded_json [of f] by (metis nth_map)
  then have r: "json_row ?r = ?r"
    by (simp add: s json_row_status)
  then have "map json_row (?rows[idx := ?r]) = ?rows[idx := ?r]"
    by (simp add: map_update)
  with assms i r show ?thesis
    by (simp add: patch_api_admin_requests_def split_beta Let_def)
qed

subsection \<open>Sequences of calls\<close>

text \<open>What a later read finds after one creation, and after a sequence of them.\<close>

lemma loaded_after_post:
  "fst (readRequestsSafe (snd (post_api_requests e b f))) =
     created [fst (post_api_requests e b f)] @ fst (readRequestsSafe f)"
  by (simp add: post_api_requests_def split_beta Let_def readRequestsSafe_again)

lemma created_append: "created (xs @ ys) = created xs @ created ys"
  by (induction xs rule: created.induct) simp_all

lemma created_Cons: "created (x # xs) = created [x] @ created xs"
  by (cases x) auto

lemma rev_created_single: "rev (created [x]) = created [x]"
  by (cases x) auto

lemma loaded_after_post_all:
  "fst (readRequestsSafe (snd (post_all cs f))) =
     rev (created (fst (post_all cs f))) @ fst (readRequestsSafe f)"
proof (induction cs arbitrary: f)
  case Nil
  then show ?case by simp
next
  case (Cons c cs)
  obtain e b where c: "c = (e, b)" by (cases c)
  let ?res = "fst (post_api_requests e b f)"
  let ?f1 = "snd (post_api_requests e b f)"
  have p: "post_all (c # cs) f = (?res # fst (post_all cs ?f1), snd (post_all cs ?f1))"
    by (simp add: c split_beta)
  have "fst (readRequestsSafe (snd (post_all (c # cs) f))) =
          rev (created (fst (post_all cs ?f1))) @ fst (readRequestsSafe ?f1)"
    using Cons.IH [of ?f1] by (simp only: p snd_conv)
  also have "\<dots> = rev (created (fst (post_all cs ?f1))) @ rev (created [?res]) @
                    fst (readRequestsSafe f)"
    by (simp only: loaded_after_post rev_created_single)
  also have "\<dots> = rev (created (?res # fst (post_all cs ?f1))) @ fst (readRequestsSafe f)"
    by (subst created_Cons [of ?res]) (simp only: rev_append append_assoc)
  finally show ?case
    by (simp only: p fst_conv)
qed

lemma length_post_all: "length (fst (post_all cs f)) = length cs"
  by (induction cs arbitrary: f) (auto simp: split_beta)

text \<open>
  A file of rows that holds a row with a given id and slot whose status is not
  "cancelled" still does after any call other than a transition of that id to
  "cancelled".
\<close>

lemma snd_read_Rows: "f = Rows rs \<Longrightarrow> snd (readRequestsSafe f) = f"
  by simp

lemma call_keeps_holder:
  assumes "holds_slot i dt f"
    and "c \<noteq> Transition i (JStr ''cancelled'')"
  shows "holds_slot i dt (snd (call_api c f))"
proof -
  from assms(1) have "\<exists>rs. f = Rows rs"
    and h: "\<exists>r \<in> set (fst (readRequestsSafe f)).
              id_field r = JStr i \<and> dateTime r = JStr dt \<and> status r \<noteq> JStr ''cancelled''"
    by (simp_all add: holds_slot_def)
  then obtain rs where f: "f = Rows rs"
    by blast
  note kept = snd_read_Rows [OF f]
  show ?thesis
  proof (cases c)
    case (Create e b)
    then show ?thesis
      using assms(1) h kept
      by (auto simp add: post_api_requests_def split_beta Let_def holds_slot_def)
  next
    case (Availability d t)
    then show ?thesis
      using assms(1) kept by (auto simp add: get_api_check_def split_beta Let_def)
  next
    case Listing
    then show ?thesis
      using assms(1) kept by (auto simp add: get_api_admin_requests_def split_beta)
  next
    case (Transition ident st)
    let ?rows = "fst (readRequestsSafe f)"
    let ?p = "\<lambda>r. strict_eq (id_field r) (JStr ident)"
    show ?thesis
    proof (cases "st \<in> set allowed")
      case False
      with Transition assms(1) show ?thesis
        by (auto simp add: patch_api_admin_requests_def)
    next
      case True
      show ?thesis
      proof (cases "findIndex ?p ?rows")
        case None
        with True Transition assms(1) kept show ?thesis
          by (auto simp add: patch_api_admin_requests_def split_beta)
      next
        case (Some idx)
        let ?r = "(?rows ! idx)\<lparr>status := st\<rparr>"
        let ?rows' = "?rows[idx := ?r]"
        from findIndex_Some [OF Some] have idx: "idx < length ?rows"
          "id_field (?rows ! idx) = JStr ident"
          by simp_all
        have stored: "snd (call_api c f) = Rows ?rows'"
          using patch_found [OF True Some] Transition by simp
        from True obtain s where s: "st = JStr s"
          by (auto dest: allowed_JStr)
        have "json_row (?rows ! idx) = ?rows ! idx"
          using loaded_json [of f] idx(1) by (metis nth_map)
        then have "json_row ?r = ?r"
          by (simp add: s json_row_status)
        then have same: "map json_row ?rows' = ?rows'"
          by (simp add: map_update)
        from h obtain k where k: "k < length ?rows" "id_field (?rows ! k) = JStr i"
          "dateTime (?rows ! k) = JStr dt" "status (?rows ! k) \<noteq> JStr ''cancelled''"
          by (auto simp add: in_set_conv_nth)
        have "id_field (?rows' ! k) = JStr i \<and> dateTime (?rows' ! k) = JStr dt \<and>
              status (?rows' ! k) \<noteq> JStr ''cancelled''"
        proof (cases "k = idx")
          case False
          with k show ?thesis by simp
        next
          case eq: True
          with idx k have "ident = i" by simp
          with assms(2) Transition have "st \<noteq> JStr ''cancelled''" by simp
          with eq k idx show ?thesis by simp
        qed
        moreover have "?rows' ! k \<in> set ?rows'"
          using k(1) by (simp add: set_update_memI)
        ultimately have "\<exists>r \<in> set ?rows'.
            id_field r = JStr i \<and> dateTime r = JStr dt \<and> status r \<noteq> JStr ''cancelled''"
          by blast
        with stored same show ?thesis
          by (simp only: holds_slot_def readRequestsSafe_Rows fst_conv) blast
      qed
    qed
  qed
qed

lemma run_keeps_holder:
  assumes "holds_slot i dt f"
    and "Transition i (JStr ''cancelled'') \<notin> set calls"
  shows "holds_slot i dt (snd (run calls f))"
  using assms
proof (induction calls arbitrary: f)
  case Nil
  then show ?case by simp
next
  case (Cons c calls)
  from Cons.prems have "c \<noteq> Transition i (JStr ''cancelled'')"
    and rest: "Transition i (JStr ''cancelled'') \<notin> set calls"
    by auto
  from call_keeps_holder [OF Cons.prems(1) this(1)]
  have "holds_slot i dt (snd (call_api c f))" .
  from Cons.IH [OF this rest] show ?case
    by (simp add: split_beta)
qed

subsection \<open>The sample requests\<close>

lemma sample_body_valid:
  "\<not> missing_required sample_body" "isValidDateYYYYMMDD (date sample_body)"
  "isValidTimeHHMM (time sample_body)"
  by (simp_all add: missing_required_def sample_body_def isValidDateYYYYMMDD_def
      isValidTimeHHMM_def isDigit_def)

lemma estimate_sample_body: "estimate sample_body = Fin 210"
  by (simp add: estimate_def sample_body_def js_or_def roundDouble_exact)

lemma estimate_later_body: "estimate later_body = Fin 210"
  by (simp add: estimate_def later_body_def sample_body_def js_or_def roundDouble_exact)

lemma sample_row_json:
  "json_row (newRequest e sample_body) = newRequest e sample_body"
  by (simp add: json_row_def newRequest_def estimate_sample_body)
    (simp add: sample_body_def js_or_def)

lemma later_row_json:
  "json_row (newRequest e later_body) = newRequest e later_body"
  by (simp add: json_row_def newRequest_def estimate_later_body)
    (simp add: later_body_def sample_body_def js_or_def)

lemma newRequest_fields:
  "dateTime (newRequest e b) = JStr (makeDateTimeKey (date b) (time b))"
  "status (newRequest e b) = JStr ''pending''"
  "id_field (newRequest e b) = JStr (randomHex e @ nowHex e)"
  by (simp_all add: newRequest_def)

lemma sample_first_creation:
  "post_api_requests sample_env sample_body NoFile =
     (Inr (201, newRequest sample_env sample_body), booked_file)"
  by (simp add: post_accepted sample_body_valid booked_file_def sample_row_json)

lemma StringToNumber_abc: "StringToNumber ''abc'' = NaN"
  by (simp add: StringToNumber_def trimString_def isStrWhiteSpaceChar_def parseNonDecimal_def
      parseUnsignedDecimal_def parseMantissa_def parseDigits_def isExpChar_def)

lemma patch_rows:
  assumes "st \<in> set allowed"
    and "findIndex (\<lambda>r. strict_eq (id_field r) (JStr ident)) (map json_row rs) = Some idx"
  shows "patch_api_admin_requests ident st (Rows rs) =
           (Inr (200, (map json_row rs ! idx)\<lparr>status := st\<rparr>),
            Rows ((map json_row rs)[idx := (map json_row rs ! idx)\<lparr>status := st\<rparr>]))"
  using patch_found [of st ident "Rows rs" idx] assms by simp

lemma sample_ids:
  "id_field (newRequest sample_env b) = JStr ''8f3a1c19a2b3c4d5e''"
  "id_field (newRequest later_env b) = JStr ''c41d0719a2b3c5f00''"
  by (simp_all add: newRequest_fields sample_env_def later_env_def)

lemma sample_rows_status_json:
  "json_row ((newRequest e sample_body)\<lparr>status := JStr s\<rparr>) =
     (newRequest e sample_body)\<lparr>status := JStr s\<rparr>"
  by (simp add: json_row_status sample_row_json)

section \<open>The conflict law\<close>



section \<open>The estimate and the stored counts\<close>

lemma js_add_NaN_right [simp]: "js_add a NaN = NaN"
  by (cases a) simp_all

lemma js_add_NaN_left [simp]: "js_add NaN a = NaN"
  by simp

lemma js_mul_NaN_left [simp]: "js_mul NaN a = NaN"
  by simp

text \<open>
  On multiples of a quarter up to \<open>10^13\<close> the four operations of the estimate are
  exact: every intermediate value is a multiple of a quarter below \<open>2^51\<close>.
\<close>

lemma estimate_exact:
  assumes "4 * x \<in> \<int>" and "4 * y \<in> \<int>" and "\<bar>x\<bar> \<le> 10 ^ 13" and "\<bar>y\<bar> \<le> 10 ^ 13"
    and "base \<in> {120, 180}" and "extra \<in> {0, 60}"
  shows "js_add (js_add (js_add (Fin base) (js_mul (Fin x) (Fin 20))) (js_mul (Fin y) (Fin 15)))
           (Fin extra) = Fin (base + 20 * x + 15 * y + extra)"
proof -
  have p: "(2::rat) ^ 51 = 2251799813685248"
    by simp
  have qx: "4 * (x * 20) \<in> \<int>"
    using Ints_mult [OF assms(1), of 20] by (simp add: mult.commute mult.left_commute)
  have qy: "4 * (y * 15) \<in> \<int>"
    using Ints_mult [OF assms(2), of 15] by (simp add: mult.commute mult.left_commute)
  have qb: "4 * base \<in> \<int>" and qe: "4 * extra \<in> \<int>"
    using assms(5,6) by auto
  have bx: "\<bar>x * 20\<bar> \<le> 2 * 10 ^ 14" and "\<bar>y * 15\<bar> \<le> 15 * 10 ^ 13"
    using assms(3,4) by (simp_all add: abs_mult)
  have bb: "\<bar>base\<bar> \<le> 180" and be: "\<bar>extra\<bar> \<le> 60"
    using assms(5,6) by auto
  have m1: "js_mul (Fin x) (Fin 20) = Fin (x * 20)"
    using qx bx by (intro js_mul_exact) (simp_all add: p)
  have m2: "js_mul (Fin y) (Fin 15) = Fin (y * 15)"
    using qy \<open>\<bar>y * 15\<bar> \<le> 15 * 10 ^ 13\<close> by (intro js_mul_exact) (simp_all add: p)
  have q1: "4 * (base + x * 20) \<in> \<int>"
    using Ints_add [OF qb qx] by (simp add: algebra_simps)
  have b1: "\<bar>base + x * 20\<bar> \<le> 180 + 2 * 10 ^ 14"
    using bb bx by linarith
  have a1: "js_add (Fin base) (Fin (x * 20)) = Fin (base + x * 20)"
    using q1 b1 by (intro js_add_exact) (simp_all add: p)
  have q2: "4 * (base + x * 20 + y * 15) \<in> \<int>"
    using Ints_add [OF q1 qy] by (simp add: algebra_simps)
  have b2: "\<bar>base + x * 20 + y * 15\<bar> \<le> 180 + 2 * 10 ^ 14 + 15 * 10 ^ 13"
    using b1 \<open>\<bar>y * 15\<bar> \<le> 15 * 10 ^ 13\<close> by linarith
  have a2: "js_add (Fin (base + x * 20)) (Fin (y * 15)) = Fin (base + x * 20 + y * 15)"
    using q2 b2 by (intro js_add_exact) (simp_all add: p)
  have q3: "4 * (base + x * 20 + y * 15 + extra) \<in> \<int>"
    using Ints_add [OF q2 qe] by (simp add: algebra_simps)
  have b3: "\<bar>base + x * 20 + y * 15 + extra\<bar> \<le> 180 + 2 * 10 ^ 14 + 15 * 10 ^ 13 + 60"
    using b2 be by linarith
  have a3: "js_add (Fin (base + x * 20 + y * 15)) (Fin extra) =
      Fin (base + x * 20 + y * 15 + extra)"
    using q3 b3 by (intro js_add_exact) (simp_all add: p)
  show ?thesis
    by (simp only: m1 m2 a1 a2 a3) (simp add: mult.commute)
qed

text \<open>
  Claim C2, amended. A creation that passes validation and the conflict check always
  answers 201 with the new row and stores it in front. With \<open>x\<close> (and \<open>y\<close>) the
  number 0 when \<^verbatim>\<open>bedrooms\<close> (\<^verbatim>\<open>bathrooms\<close>) is absent or otherwise falsy and its
  \<^verbatim>\<open>Number()\<close> conversion otherwise, negative values included, the
  \<^verbatim>\<open>estimateUSD\<close> of the row is \<open>(180 if serviceType is "deep", else 120) + 20 * x +
  15 * y + (60 if propertyType is "commercial", else 0)\<close> whenever \<open>x\<close> and \<open>y\<close> are
  multiples of a quarter of magnitude up to \<open>10^13\<close>, where the double arithmetic is
  exact; and it is \<^verbatim>\<open>null\<close> (the JSON of \<^verbatim>\<open>NaN\<close>) when a conversion is
  \<^verbatim>\<open>NaN\<close>, as for a string that is no number.
\<close>

theorem estimate_of_created_request:
  assumes "\<not> missing_required b" and "isValidDateYYYYMMDD (date b)" and "isValidTimeHHMM (time b)"
    and "\<not> conflict (fst (readRequestsSafe f)) (makeDateTimeKey (date b) (time b))"
  shows "post_api_requests e b f =
           (Inr (201, json_row (newRequest e b)),
            Rows (json_row (newRequest e b) # fst (readRequestsSafe f))) \<and>
         ((if truthy (bedrooms b) then ToNumber (bedrooms b) else Fin 0) = Fin x \<longrightarrow>
          (if truthy (bathrooms b) then ToNumber (bathrooms b) else Fin 0) = Fin y \<longrightarrow>
          4 * x \<in> \<int> \<longrightarrow> 4 * y \<in> \<int> \<longrightarrow> \<bar>x\<bar> \<le> 10 ^ 13 \<longrightarrow> \<bar>y\<bar> \<le> 10 ^ 13 \<longrightarrow>
          estimateUSD (json_row (newRequest e b)) =
            JNum (Fin ((if serviceType b = JStr ''deep'' then 180 else 120) + 20 * x + 15 * y +
                       (if propertyType b = JStr ''commercial'' then 60 else 0)))) \<and>
         (truthy (bedrooms b) \<and> ToNumber (bedrooms b) = NaN \<or>
          truthy (bathrooms b) \<and> ToNumber (bathrooms b) = NaN \<longrightarrow>
          estimateUSD (json_row (newRequest e b)) = Null)"
proof -
  let ?base = "if serviceType b = JStr ''deep'' then 180 else (120::rat)"
  let ?extra = "if propertyType b = JStr ''commercial'' then 60 else (0::rat)"
  let ?beds = "if truthy (bedrooms b) then ToNumber (bedrooms b) else Fin 0"
  let ?baths = "if truthy (bathrooms b) then ToNumber (bathrooms b) else Fin 0"
  have est: "estimate b =
      js_add (js_add (js_add (Fin ?base) (js_mul ?beds (Fin 20))) (js_mul ?baths (Fin 15)))
        (Fin ?extra)"
    by (simp add: estimate_def js_or_def)
  have usd: "estimateUSD (json_row (newRequest e b)) = json_value (JNum (estimate b))"
    by (simp add: newRequest_def)
  have exact: "estimateUSD (json_row (newRequest e b)) =
      JNum (Fin (?base + 20 * x + 15 * y + ?extra))"
    if "?beds = Fin x" "?baths = Fin y" "4 * x \<in> \<int>" "4 * y \<in> \<int>"
      "\<bar>x\<bar> \<le> 10 ^ 13" "\<bar>y\<bar> \<le> 10 ^ 13"
  proof -
    have "estimate b = Fin (?base + 20 * x + 15 * y + ?extra)"
      unfolding est that(1,2) using that(3-6) by (intro estimate_exact) simp_all
    then show ?thesis
      unfolding usd by simp
  qed
  have nan: "estimateUSD (json_row (newRequest e b)) = Null"
    if "truthy (bedrooms b) \<and> ToNumber (bedrooms b) = NaN \<or>
        truthy (bathrooms b) \<and> ToNumber (bathrooms b) = NaN"
  proof -
    from that have "estimate b = NaN"
      unfolding est by auto
    then show ?thesis
      unfolding usd by simp
  qed
  from post_accepted [OF assms] exact nan show ?thesis
    by blast
qed

text \<open>The scenario of the specification: standard, 3 bedrooms, 2 bathrooms, residential.\<close>

theorem estimate_of_created_request_witness:
  "fst (post_api_requests sample_env sample_body NoFile) =
     Inr (201, newRequest sample_env sample_body) \<and>
   estimateUSD (newRequest sample_env sample_body) = JNum (Fin 210)"
proof -
  have b: "(if truthy (bedrooms sample_body) then ToNumber (bedrooms sample_body) else Fin 0) = Fin 3"
    and c: "(if truthy (bathrooms sample_body) then ToNumber (bathrooms sample_body) else Fin 0) = Fin 2"
    by (simp_all add: sample_body_def)
  have d: "serviceType sample_body \<noteq> JStr ''deep''"
    "propertyType sample_body \<noteq> JStr ''commercial''"
    by (simp_all add: sample_body_def)
  have n: "\<not> conflict (fst (readRequestsSafe NoFile))
             (makeDateTimeKey (date sample_body) (time sample_body))"
    by simp
  have q: "4 * (3::rat) \<in> \<int>" "4 * (2::rat) \<in> \<int>" "\<bar>3::rat\<bar> \<le> 10 ^ 13" "\<bar>2::rat\<bar> \<le> 10 ^ 13"
    by simp_all
  show ?thesis
    using estimate_of_created_request [OF sample_body_valid n, of sample_env 3 2] b c d q
    by (simp add: sample_row_json)
qed

text \<open>
  With \<^verbatim>\<open>bedrooms = -2\<close> and no bathrooms the estimate is \<open>120 - 40 = 80\<close>, not the
  \<open>120\<close> that a contribution of 0 would give; with \<^verbatim>\<open>bedrooms = "abc"\<close> it is
  \<^verbatim>\<open>NaN\<close>, which the response and the file carry as \<^verbatim>\<open>null\<close>.
\<close>

theorem negative_bedrooms_lower_the_estimate:
  "fst (post_api_requests sample_env negative_body NoFile) =
     Inr (201, json_row (newRequest sample_env negative_body)) \<and>
   bedrooms negative_body = JNum (Fin (- 2)) \<and>
   estimateUSD (json_row (newRequest sample_env negative_body)) = JNum (Fin 80) \<and>
   estimateUSD (json_row (newRequest sample_env negative_body)) \<noteq>
     JNum (Fin (120 + 20 * 0 + 15 * 0 + 0)) \<and>
   fst (post_api_requests sample_env text_body NoFile) =
     Inr (201, json_row (newRequest sample_env text_body)) \<and>
   bedrooms text_body = JStr ''abc'' \<and>
   estimateUSD (newRequest sample_env text_body) = JNum NaN \<and>
   estimateUSD (json_row (newRequest sample_env text_body)) = Null"
proof -
  have v: "\<not> missing_required negative_body" "isValidDateYYYYMMDD (date negative_body)"
    "isValidTimeHHMM (time negative_body)"
    using sample_body_valid by (simp_all add: negative_body_def missing_required_def)
  have w: "\<not> missing_required text_body" "isValidDateYYYYMMDD (date text_body)"
    "isValidTimeHHMM (time text_body)"
    using sample_body_valid by (simp_all add: text_body_def missing_required_def)
  have "estimate negative_body = Fin 80"
    by (simp add: estimate_def negative_body_def sample_body_def js_or_def roundDouble_exact)
  moreover have "estimate text_body = NaN"
    by (simp add: estimate_def text_body_def sample_body_def js_or_def StringToNumber_abc)
  ultimately show ?thesis
    by (simp add: post_accepted v w newRequest_def)
      (simp add: negative_body_def text_body_def)
qed

text \<open>
  Claim C9, amended. In the row of an accepted creation, as answered and as stored,
  \<^verbatim>\<open>bedrooms\<close> and \<^verbatim>\<open>bathrooms\<close> are each \<^verbatim>\<open>null\<close> or a non-negative number,
  except when the value in the body converts under \<^verbatim>\<open>Number()\<close> to a negative
  finite number: that number is then the field.
\<close>

theorem stored_counts_nullable_nonneg:
  assumes "\<not> missing_required b" and "isValidDateYYYYMMDD (date b)" and "isValidTimeHHMM (time b)"
    and "\<not> conflict (fst (readRequestsSafe f)) (makeDateTimeKey (date b) (time b))"
  shows "\<exists>r. post_api_requests e b f = (Inr (201, r), Rows (r # fst (readRequestsSafe f))) \<and>
           (nullable_nonneg_number (bedrooms r) \<longleftrightarrow>
              \<not> (\<exists>x<0. ToNumber (bedrooms b) = Fin x)) \<and>
           (nullable_nonneg_number (bathrooms r) \<longleftrightarrow>
              \<not> (\<exists>y<0. ToNumber (bathrooms b) = Fin y)) \<and>
           (\<forall>x<0. ToNumber (bedrooms b) = Fin x \<longrightarrow> bedrooms r = JNum (Fin x)) \<and>
           (\<forall>y<0. ToNumber (bathrooms b) = Fin y \<longrightarrow> bathrooms r = JNum (Fin y))"
proof -
  have neg_truthy: "truthy v" if "ToNumber v = Fin x" "x < 0" for v x
    using that by (cases v rule: truthy.cases)
      (auto simp add: StringToNumber_def trimString_def split: if_splits)
  have field: "nullable_nonneg_number
          (json_value (if truthy v then JNum (ToNumber v) else Null)) \<longleftrightarrow>
        \<not> (\<exists>x<0. ToNumber v = Fin x)" for v
  proof (cases "truthy v")
    case False
    with neg_truthy show ?thesis
      by (auto simp add: nullable_nonneg_number_def)
  next
    case True
    then show ?thesis
      by (cases "ToNumber v") (auto simp add: nullable_nonneg_number_def)
  qed
  have kept: "json_value (if truthy v then JNum (ToNumber v) else Null) = JNum (Fin x)"
    if "ToNumber v = Fin x" "x < 0" for v x
    using that neg_truthy [OF that] by simp
  let ?r = "json_row (newRequest e b)"
  have "bedrooms ?r = json_value (if truthy (bedrooms b) then JNum (ToNumber (bedrooms b)) else Null)"
    "bathrooms ?r = json_value (if truthy (bathrooms b) then JNum (ToNumber (bathrooms b)) else Null)"
    by (simp_all add: newRequest_def)
  with field kept post_accepted [OF assms, of e] show ?thesis
    by (intro exI [of _ ?r]) (simp del: json_row_fields)
qed

text \<open>
  The sample body with 3 and 2, and a body whose \<^verbatim>\<open>bedrooms\<close> is the string
  "abc": the answer carries \<^verbatim>\<open>null\<close>.
\<close>

theorem stored_counts_nullable_nonneg_witness:
  "fst (post_api_requests sample_env sample_body NoFile) =
     Inr (201, newRequest sample_env sample_body) \<and>
   nullable_nonneg_number (bedrooms (newRequest sample_env sample_body)) \<and>
   nullable_nonneg_number (bathrooms (newRequest sample_env sample_body)) \<and>
   bedrooms (newRequest sample_env sample_body) = JNum (Fin 3) \<and>
   fst (post_api_requests sample_env text_body NoFile) =
     Inr (201, json_row (newRequest sample_env text_body)) \<and>
   bedrooms (json_row (newRequest sample_env text_body)) = Null"
proof -
  have n: "\<not> conflict (fst (readRequestsSafe NoFile))
             (makeDateTimeKey (date sample_body) (time sample_body))"
    by simp
  have w: "\<not> missing_required text_body" "isValidDateYYYYMMDD (date text_body)"
    "isValidTimeHHMM (time text_body)"
    using sample_body_valid by (simp_all add: text_body_def missing_required_def)
  have m: "\<not> conflict (fst (readRequestsSafe NoFile))
             (makeDateTimeKey (date text_body) (time text_body))"
    by simp
  have b: "\<not> (\<exists>x<0. ToNumber (bedrooms sample_body) = Fin x)"
    "\<not> (\<exists>y<0. ToNumber (bathrooms sample_body) = Fin y)"
    by (simp_all add: sample_body_def)
  have three: "bedrooms (newRequest sample_env sample_body) = JNum (Fin 3)"
    by (simp add: newRequest_def sample_body_def)
  have abc: "bedrooms (json_row (newRequest sample_env text_body)) = Null"
    by (simp add: newRequest_def text_body_def StringToNumber_abc)
  from stored_counts_nullable_nonneg [OF sample_body_valid n, of sample_env] b
  have "nullable_nonneg_number (bedrooms (newRequest sample_env sample_body)) \<and>
        nullable_nonneg_number (bathrooms (newRequest sample_env sample_body))"
    by (auto simp add: sample_first_creation)
  moreover from stored_counts_nullable_nonneg [OF w m, of sample_env]
  have "fst (post_api_requests sample_env text_body NoFile) =
     Inr (201, json_row (newRequest sample_env text_body))"
    by (auto simp add: post_accepted w)
  ultimately show ?thesis
    using three abc by (simp add: sample_first_creation)
qed

text \<open>An accepted body with \<^verbatim>\<open>bedrooms = -2\<close> gives a row whose \<^verbatim>\<open>bedrooms\<close> is -2.\<close>

theorem negative_bedrooms_are_stored:
  "post_api_requests sample_env negative_body NoFile =
     (Inr (201, json_row (newRequest sample_env negative_body)),
      Rows [json_row (newRequest sample_env negative_body)]) \<and>
   bedrooms (json_row (newRequest sample_env negative_body)) = JNum (Fin (- 2)) \<and>
   \<not> nullable_nonneg_number (bedrooms (json_row (newRequest sample_env negative_body)))"
proof -
  have v: "\<not> missing_required negative_body" "isValidDateYYYYMMDD (date negative_body)"
    "isValidTimeHHMM (time negative_body)"
    using sample_body_valid by (simp_all add: negative_body_def missing_required_def)
  have "bedrooms (json_row (newRequest sample_env negative_body)) = JNum (Fin (- 2))"
    by (simp add: newRequest_def negative_body_def)
  then show ?thesis
    by (simp add: post_accepted v nullable_nonneg_number_def)
qed

text \<open>
  Claim C10. In an accepted creation whose \<^verbatim>\<open>bedrooms\<close> is the number 0, the row
  stores \<^verbatim>\<open>null\<close> for the field, and the estimate is the one of the same body
  without the field: the field adds 0. The same holds for \<^verbatim>\<open>bathrooms\<close>.
\<close>

theorem zero_count_stored_as_null:
  assumes "\<not> missing_required b" and "isValidDateYYYYMMDD (date b)" and "isValidTimeHHMM (time b)"
    and "\<not> conflict (fst (readRequestsSafe f)) (makeDateTimeKey (date b) (time b))"
  shows "fst (post_api_requests e b f) = Inr (201, json_row (newRequest e b)) \<and>
         (bedrooms b = JNum (Fin 0) \<longrightarrow>
            bedrooms (newRequest e b) = Null \<and>
            bedrooms (json_row (newRequest e b)) = Null \<and>
            estimateUSD (newRequest e b) = JNum (estimate (b\<lparr>bedrooms := Undefined\<rparr>)) \<and>
            estimateUSD (json_row (newRequest e b)) =
              json_value (JNum (estimate (b\<lparr>bedrooms := Undefined\<rparr>)))) \<and>
         (bathrooms b = JNum (Fin 0) \<longrightarrow>
            bathrooms (newRequest e b) = Null \<and>
            bathrooms (json_row (newRequest e b)) = Null \<and>
            estimateUSD (newRequest e b) = JNum (estimate (b\<lparr>bathrooms := Undefined\<rparr>)) \<and>
            estimateUSD (json_row (newRequest e b)) =
              json_value (JNum (estimate (b\<lparr>bathrooms := Undefined\<rparr>))))"
proof -
  have "fst (post_api_requests e b f) = Inr (201, json_row (newRequest e b))"
    using assms by (simp add: post_accepted)
  then show ?thesis
    by (simp add: newRequest_def estimate_def js_or_def)
qed

text \<open>The second scenario of the specification: deep, 0, 0, commercial gives 240.\<close>

theorem zero_count_stored_as_null_witness:
  "fst (post_api_requests sample_env zero_body NoFile) =
     Inr (201, json_row (newRequest sample_env zero_body)) \<and>
   bedrooms (json_row (newRequest sample_env zero_body)) = Null \<and>
   bathrooms (json_row (newRequest sample_env zero_body)) = Null \<and>
   estimateUSD (json_row (newRequest sample_env zero_body)) = JNum (Fin 240)"
proof -
  have v: "\<not> missing_required zero_body" "isValidDateYYYYMMDD (date zero_body)"
    "isValidTimeHHMM (time zero_body)"
    using sample_body_valid by (simp_all add: zero_body_def missing_required_def)
  have n: "\<not> conflict (fst (readRequestsSafe NoFile))
             (makeDateTimeKey (date zero_body) (time zero_body))"
    by simp
  have z: "bedrooms zero_body = JNum (Fin 0)" "bathrooms zero_body = JNum (Fin 0)"
    by (simp_all add: zero_body_def)
  have "estimate (zero_body\<lparr>bedrooms := Undefined\<rparr>) = Fin 240"
    by (simp add: estimate_def zero_body_def sample_body_def js_or_def roundDouble_exact)
  then show ?thesis
    using zero_count_stored_as_null [OF v n, of sample_env] z by simp
qed
section \<open>Availability\<close>

text \<open>
  Claim C3. \<^verbatim>\<open>GET /api/check\<close>: a missing (falsy) date or time gives 400
  "Missing date or time."; a date or a time that fails its format test gives 400
  with the message of that test; otherwise the answer is 200 with the key
  \<open>date + " " + time\<close> and \<open>available\<close> true exactly when no stored row has that
  \<^verbatim>\<open>dateTime\<close> and a status other than "cancelled".
\<close>

theorem check_contract:
  "(\<not> truthy d \<or> \<not> truthy t \<longrightarrow>
      get_api_check d t f = (Inl (HttpError 400 ''Missing date or time.''), f)) \<and>
   (truthy d \<and> truthy t \<and> \<not> isValidDateYYYYMMDD d \<longrightarrow>
      get_api_check d t f = (Inl (HttpError 400 ''Date must be YYYY-MM-DD.''), f)) \<and>
   (truthy d \<and> truthy t \<and> isValidDateYYYYMMDD d \<and> \<not> isValidTimeHHMM t \<longrightarrow>
      get_api_check d t f = (Inl (HttpError 400 ''Time must be HH:MM (24-hour).''), f)) \<and>
   (truthy d \<and> truthy t \<and> isValidDateYYYYMMDD d \<and> isValidTimeHHMM t \<longrightarrow>
      fst (get_api_check d t f) =
        Inr (200,
          \<lparr>available =
             \<not> (\<exists>r \<in> set (fst (readRequestsSafe f)).
                  dateTime r = JStr (ToString d @ '' '' @ ToString t) \<and>
                  status r \<noteq> JStr ''cancelled''),
           dateTime_out = ToString d @ '' '' @ ToString t\<rparr>))"
  by (simp add: get_api_check_def split_beta Let_def conflict_def makeDateTimeKey_def
      list_ex_iff)

text \<open>After the sample creation its slot is reported as taken, and an absent time is refused.\<close>

theorem check_contract_witness:
  "fst (get_api_check (JStr ''2025-06-01'') (JStr ''10:00'') booked_file) =
     Inr (200, \<lparr>available = False, dateTime_out = ''2025-06-01 10:00''\<rparr>) \<and>
   get_api_check (JStr ''2025-06-01'') Undefined booked_file =
     (Inl (HttpError 400 ''Missing date or time.''), booked_file)"
proof -
  have v: "truthy (JStr ''2025-06-01'') \<and> truthy (JStr ''10:00'') \<and>
           isValidDateYYYYMMDD (JStr ''2025-06-01'') \<and> isValidTimeHHMM (JStr ''10:00'')"
    by (simp add: isValidDateYYYYMMDD_def isValidTimeHHMM_def isDigit_def)
  have "dateTime (newRequest sample_env sample_body) = JStr ''2025-06-01 10:00''"
    "status (newRequest sample_env sample_body) = JStr ''pending''"
    by (simp_all add: newRequest_def sample_body_def makeDateTimeKey_def)
  then show ?thesis
    using check_contract [of "JStr ''2025-06-01''" "JStr ''10:00''" booked_file] v
      check_contract [of "JStr ''2025-06-01''" Undefined booked_file]
    by (simp add: booked_file_def sample_row_json)
qed

text \<open>
  Claim C8. \<^verbatim>\<open>GET /api/check\<close> leaves the sequence of rows that a read gives as
  it was, a second call with the same date and time gives the same answer as the
  first, and a file that holds an array of rows is not touched at all.
\<close>

theorem check_no_side_effects:
  "fst (readRequestsSafe (snd (get_api_check d t f))) = fst (readRequestsSafe f) \<and>
   get_api_check d t (snd (get_api_check d t f)) = get_api_check d t f \<and>
   snd (get_api_check d t (Rows rs)) = Rows rs"
  by (simp add: get_api_check_def split_beta Let_def readRequestsSafe_again)

theorem check_no_side_effects_witness:
  "fst (readRequestsSafe
         (snd (get_api_check (JStr ''2025-06-01'') (JStr ''10:00'') booked_file))) =
     [newRequest sample_env sample_body] \<and>
   get_api_check (JStr ''2025-06-01'') (JStr ''10:00'')
     (snd (get_api_check (JStr ''2025-06-01'') (JStr ''10:00'') booked_file)) =
     get_api_check (JStr ''2025-06-01'') (JStr ''10:00'') booked_file"
  using check_no_side_effects [of "JStr ''2025-06-01''" "JStr ''10:00''" booked_file]
  by (simp add: booked_file_def sample_row_json)

section \<open>Creation\<close>

text \<open>
  Claim C4. \<^verbatim>\<open>POST /api/requests\<close>: when one of fullName, email, phone,
  serviceType, propertyType, address, date, time is absent or empty (falsy), the
  answer is 400 "Missing required fields."; when all eight are there and the date,
  or else the time, fails its format test, the answer is 400 with the message of
  that test; and whether and how a creation fails does not depend on bedrooms,
  bathrooms, frequency and notes.
\<close>

theorem creation_validation:
  "((\<exists>v \<in> {fullName b, email b, phone b, serviceType b, propertyType b, address b,
              date b, time b}. \<not> truthy v) \<longrightarrow>
      post_api_requests e b f = (Inl (HttpError 400 ''Missing required fields.''), f)) \<and>
   ((\<forall>v \<in> {fullName b, email b, phone b, serviceType b, propertyType b, address b,
              date b, time b}. truthy v) \<and> \<not> isValidDateYYYYMMDD (date b) \<longrightarrow>
      post_api_requests e b f = (Inl (HttpError 400 ''Date must be YYYY-MM-DD.''), f)) \<and>
   ((\<forall>v \<in> {fullName b, email b, phone b, serviceType b, propertyType b, address b,
              date b, time b}. truthy v) \<and> isValidDateYYYYMMDD (date b) \<and>
      \<not> isValidTimeHHMM (time b) \<longrightarrow>
      post_api_requests e b f = (Inl (HttpError 400 ''Time must be HH:MM (24-hour).''), f)) \<and>
   (\<forall>err. fst (post_api_requests e
                (b\<lparr>bedrooms := v1, bathrooms := v2, frequency := v3, notes_field := v4\<rparr>) f) = Inl err
          \<longleftrightarrow> fst (post_api_requests e b f) = Inl err)"
  by (simp add: post_api_requests_def missing_required_def split_beta Let_def)

text \<open>
  An empty email, a date with slashes, and the sample body with its four optional
  fields absent, which is accepted.
\<close>

theorem creation_validation_witness:
  "post_api_requests sample_env (sample_body\<lparr>email := JStr []\<rparr>) NoFile =
     (Inl (HttpError 400 ''Missing required fields.''), NoFile) \<and>
   post_api_requests sample_env (sample_body\<lparr>date := JStr ''2025/06/01''\<rparr>) NoFile =
     (Inl (HttpError 400 ''Date must be YYYY-MM-DD.''), NoFile) \<and>
   (\<forall>err. fst (post_api_requests sample_env
                 (sample_body\<lparr>bedrooms := Undefined, bathrooms := Undefined,
                    frequency := Undefined, notes_field := Undefined\<rparr>) NoFile) \<noteq> Inl err)"
proof -
  have "\<exists>v \<in> {fullName (sample_body\<lparr>email := JStr []\<rparr>), email (sample_body\<lparr>email := JStr []\<rparr>),
           phone (sample_body\<lparr>email := JStr []\<rparr>), serviceType (sample_body\<lparr>email := JStr []\<rparr>),
           propertyType (sample_body\<lparr>email := JStr []\<rparr>), address (sample_body\<lparr>email := JStr []\<rparr>),
           date (sample_body\<lparr>email := JStr []\<rparr>), time (sample_body\<lparr>email := JStr []\<rparr>)}.
         \<not> truthy v"
    by simp
  then have a: "post_api_requests sample_env (sample_body\<lparr>email := JStr []\<rparr>) NoFile =
     (Inl (HttpError 400 ''Missing required fields.''), NoFile)"
    using creation_validation [of "sample_body\<lparr>email := JStr []\<rparr>" sample_env NoFile]
    by blast
  let ?b = "sample_body\<lparr>date := JStr ''2025/06/01''\<rparr>"
  have "(\<forall>v \<in> {fullName ?b, email ?b, phone ?b, serviceType ?b, propertyType ?b, address ?b,
              date ?b, time ?b}. truthy v) \<and> \<not> isValidDateYYYYMMDD (date ?b)"
    by (simp add: sample_body_def isValidDateYYYYMMDD_def isDigit_def)
  then have b: "post_api_requests sample_env ?b NoFile =
     (Inl (HttpError 400 ''Date must be YYYY-MM-DD.''), NoFile)"
    using creation_validation [of ?b sample_env NoFile]
    by blast
  have "\<forall>err. fst (post_api_requests sample_env sample_body NoFile) \<noteq> Inl err"
    by (simp add: sample_first_creation)
  then have c: "\<forall>err. fst (post_api_requests sample_env
                 (sample_body\<lparr>bedrooms := Undefined, bathrooms := Undefined,
                    frequency := Undefined, notes_field := Undefined\<rparr>) NoFile) \<noteq> Inl err"
    using creation_validation [of sample_body sample_env NoFile Undefined Undefined Undefined
        Undefined]
    by blast
  from a b c show ?thesis by blast
qed

text \<open>
  Claim C6. A successful creation puts the new row in front of the rows that were
  stored. After any sequence of creations the admin listing is the rows created,
  newest first, followed by the rows there were before; so when the last creation
  of the sequence succeeded, its row is the first element of the listing.
\<close>

theorem newest_first:
  "(post_api_requests e b f = (Inr (c, r), f') \<longrightarrow>
      f' = Rows (r # fst (readRequestsSafe f)) \<and>
      fst (get_api_admin_requests f') = Inr (200, r # fst (readRequestsSafe f))) \<and>
   fst (get_api_admin_requests (snd (post_all cs f))) =
     Inr (200, rev (created (fst (post_all cs f))) @ fst (readRequestsSafe f)) \<and>
   (cs \<noteq> [] \<and> last (fst (post_all cs f)) = Inr (c, r) \<longrightarrow>
      (\<exists>older. fst (get_api_admin_requests (snd (post_all cs f))) = Inr (200, r # older)))"
proof -
  have one: "post_api_requests e b f = (Inr (c, r), f') \<longrightarrow>
      f' = Rows (r # fst (readRequestsSafe f)) \<and>
      fst (get_api_admin_requests f') = Inr (200, r # fst (readRequestsSafe f))"
    by (auto simp add: post_Inr_iff get_api_admin_requests_def)
  have listing: "fst (get_api_admin_requests (snd (post_all cs f))) =
     Inr (200, rev (created (fst (post_all cs f))) @ fst (readRequestsSafe f))"
    by (simp add: get_api_admin_requests_def split_beta) (simp only: loaded_after_post_all)
  have "\<exists>older. fst (get_api_admin_requests (snd (post_all cs f))) = Inr (200, r # older)"
    if "cs \<noteq> []" and l: "last (fst (post_all cs f)) = Inr (c, r)"
  proof -
    from that(1) have "fst (post_all cs f) \<noteq> []"
      using length_post_all [of cs f] by auto
    then have "fst (post_all cs f) = butlast (fst (post_all cs f)) @ [Inr (c, r)]"
      using l by (metis append_butlast_last_id)
    then have "created (fst (post_all cs f)) = created (butlast (fst (post_all cs f))) @ [r]"
      using created_append [of "butlast (fst (post_all cs f))" "[Inr (c, r)]"] by simp
    with listing show ?thesis by simp
  qed
  with one listing show ?thesis by blast
qed

text \<open>Two creations on a missing file: the listing starts with the second row.\<close>

theorem newest_first_witness:
  "fst (post_all [(sample_env, sample_body), (later_env, later_body)] NoFile) =
     [Inr (201, newRequest sample_env sample_body), Inr (201, newRequest later_env later_body)] \<and>
   fst (get_api_admin_requests
         (snd (post_all [(sample_env, sample_body), (later_env, later_body)] NoFile))) =
     Inr (200, [newRequest later_env later_body, newRequest sample_env sample_body])"
proof -
  have v: "\<not> missing_required later_body" "isValidDateYYYYMMDD (date later_body)"
    "isValidTimeHHMM (time later_body)"
    by (simp_all add: later_body_def missing_required_def sample_body_def
        isValidDateYYYYMMDD_def isValidTimeHHMM_def isDigit_def)
  have "\<not> conflict [newRequest sample_env sample_body]
           (makeDateTimeKey (date later_body) (time later_body))"
    by (simp add: conflict_Cons newRequest_fields makeDateTimeKey_def later_body_def
        sample_body_def)
  then have "post_api_requests later_env later_body booked_file =
      (Inr (201, newRequest later_env later_body),
       Rows [newRequest later_env later_body, newRequest sample_env sample_body])"
    using post_accepted [of later_body booked_file later_env] v
    by (simp add: booked_file_def sample_row_json later_row_json)
  then have run: "fst (post_all [(sample_env, sample_body), (later_env, later_body)] NoFile) =
     [Inr (201, newRequest sample_env sample_body), Inr (201, newRequest later_env later_body)]"
    by (simp add: sample_first_creation)
  then show ?thesis
    using newest_first [of sample_env sample_body NoFile 201 "newRequest sample_env sample_body"
        booked_file "[(sample_env, sample_body), (later_env, later_body)]"]
    by simp
qed

section \<open>The status transition\<close>

text \<open>
  Claim C7. \<^verbatim>\<open>PATCH /api/admin/requests/:id\<close>: a status outside pending,
  confirmed, completed, cancelled gives 400; an allowed status with an id that no
  stored row has gives 404; an allowed status with an id that some row has answers
  200 with the first such row, updated, and stores the rows with the status of that
  row replaced and nothing else changed: same length, every other row as it was,
  the matched row the same except for its status.
\<close>

theorem status_transition_frame:
  "(st \<notin> set allowed \<longrightarrow>
      patch_api_admin_requests ident st f = (Inl (HttpError 400 ''Invalid status.''), f)) \<and>
   (st \<in> set allowed \<and> (\<forall>r \<in> set (fst (readRequestsSafe f)). id_field r \<noteq> JStr ident) \<longrightarrow>
      fst (patch_api_admin_requests ident st f) = Inl (HttpError 404 ''Not found.'') \<and>
      fst (readRequestsSafe (snd (patch_api_admin_requests ident st f))) =
        fst (readRequestsSafe f)) \<and>
   (st \<in> set allowed \<and> (\<exists>r \<in> set (fst (readRequestsSafe f)). id_field r = JStr ident) \<longrightarrow>
      (\<exists>idx rows'.
         idx < length (fst (readRequestsSafe f)) \<and>
         id_field (fst (readRequestsSafe f) ! idx) = JStr ident \<and>
         (\<forall>j < idx. id_field (fst (readRequestsSafe f) ! j) \<noteq> JStr ident) \<and>
         patch_api_admin_requests ident st f = (Inr (200, rows' ! idx), Rows rows') \<and>
         length rows' = length (fst (readRequestsSafe f)) \<and>
         rows' ! idx = (fst (readRequestsSafe f) ! idx)\<lparr>status := st\<rparr> \<and>
         (\<forall>j < length rows'. j \<noteq> idx \<longrightarrow> rows' ! j = fst (readRequestsSafe f) ! j)))"
proof -
  let ?rows = "fst (readRequestsSafe f)"
  let ?p = "\<lambda>r. strict_eq (id_field r) (JStr ident)"
  have bad: "st \<notin> set allowed \<longrightarrow>
      patch_api_admin_requests ident st f = (Inl (HttpError 400 ''Invalid status.''), f)"
    by (simp add: patch_api_admin_requests_def)
  have none: "fst (patch_api_admin_requests ident st f) = Inl (HttpError 404 ''Not found.'') \<and>
      fst (readRequestsSafe (snd (patch_api_admin_requests ident st f))) = ?rows"
    if "st \<in> set allowed" and "\<forall>r \<in> set ?rows. id_field r \<noteq> JStr ident"
  proof -
    from that(2) have "findIndex ?p ?rows = None"
      by (simp add: findIndex_None)
    with that(1) show ?thesis
      by (simp add: patch_api_admin_requests_def split_beta readRequestsSafe_again)
  qed
  have some: "\<exists>idx rows'.
         idx < length ?rows \<and> id_field (?rows ! idx) = JStr ident \<and>
         (\<forall>j < idx. id_field (?rows ! j) \<noteq> JStr ident) \<and>
         patch_api_admin_requests ident st f = (Inr (200, rows' ! idx), Rows rows') \<and>
         length rows' = length ?rows \<and>
         rows' ! idx = (?rows ! idx)\<lparr>status := st\<rparr> \<and>
         (\<forall>j < length rows'. j \<noteq> idx \<longrightarrow> rows' ! j = ?rows ! j)"
    if "st \<in> set allowed" and "\<exists>r \<in> set ?rows. id_field r = JStr ident"
  proof -
    from that(2) have "findIndex ?p ?rows \<noteq> None"
      by (simp add: findIndex_None)
    then obtain idx where idx: "findIndex ?p ?rows = Some idx"
      by auto
    from findIndex_Some [OF idx] have i: "idx < length ?rows"
      "id_field (?rows ! idx) = JStr ident" "\<forall>j < idx. id_field (?rows ! j) \<noteq> JStr ident"
      by simp_all
    let ?rows' = "?rows[idx := (?rows ! idx)\<lparr>status := st\<rparr>]"
    have "patch_api_admin_requests ident st f = (Inr (200, ?rows' ! idx), Rows ?rows')"
      using patch_found [OF that(1) idx] i(1) by simp
    moreover have "?rows' ! idx = (?rows ! idx)\<lparr>status := st\<rparr>"
      using i(1) by simp
    moreover have "\<forall>j < length ?rows'. j \<noteq> idx \<longrightarrow> ?rows' ! j = ?rows ! j"
      by simp
    ultimately show ?thesis
      using i by (intro exI [of _ idx] exI [of _ ?rows']) simp
  qed
  from bad none some show ?thesis by blast
qed

text \<open>
  The scenario of the specification: "confirmed" on the pending sample row, then
  "bogus", and an id that is not there.
\<close>

theorem status_transition_frame_witness:
  "patch_api_admin_requests ''8f3a1c19a2b3c4d5e'' (JStr ''confirmed'') booked_file =
     (Inr (200, (newRequest sample_env sample_body)\<lparr>status := JStr ''confirmed''\<rparr>),
      Rows [(newRequest sample_env sample_body)\<lparr>status := JStr ''confirmed''\<rparr>]) \<and>
   patch_api_admin_requests ''8f3a1c19a2b3c4d5e'' (JStr ''bogus'') booked_file =
     (Inl (HttpError 400 ''Invalid status.''), booked_file) \<and>
   fst (patch_api_admin_requests ''0000'' (JStr ''confirmed'') booked_file) =
     Inl (HttpError 404 ''Not found.'')"
proof -
  have a: "JStr ''bogus'' \<notin> set allowed" "JStr ''confirmed'' \<in> set allowed"
    by (simp_all add: allowed_def)
  have b: "\<forall>r \<in> set (fst (readRequestsSafe booked_file)). id_field r \<noteq> JStr ''0000''"
    by (simp add: booked_file_def sample_row_json sample_ids)
  have c: "\<exists>r \<in> set (fst (readRequestsSafe booked_file)). id_field r = JStr ''8f3a1c19a2b3c4d5e''"
    by (simp add: booked_file_def sample_row_json sample_ids)
  from status_transition_frame [of "JStr ''confirmed''" "''8f3a1c19a2b3c4d5e''" booked_file] a c
  obtain idx rows' where
    i: "idx < length (fst (readRequestsSafe booked_file))"
    and p: "patch_api_admin_requests ''8f3a1c19a2b3c4d5e'' (JStr ''confirmed'') booked_file =
       (Inr (200, rows' ! idx), Rows rows')"
    and l: "length rows' = length (fst (readRequestsSafe booked_file))"
    and r: "rows' ! idx = (fst (readRequestsSafe booked_file) ! idx)\<lparr>status := JStr ''confirmed''\<rparr>"
    by blast
  from i have "idx = 0"
    by (simp add: booked_file_def)
  with l r have "rows' = [(newRequest sample_env sample_body)\<lparr>status := JStr ''confirmed''\<rparr>]"
    by (cases rows') (simp_all add: booked_file_def sample_row_json)
  with p \<open>idx = 0\<close> have first: "patch_api_admin_requests ''8f3a1c19a2b3c4d5e'' (JStr ''confirmed'') booked_file =
     (Inr (200, (newRequest sample_env sample_body)\<lparr>status := JStr ''confirmed''\<rparr>),
      Rows [(newRequest sample_env sample_body)\<lparr>status := JStr ''confirmed''\<rparr>])"
    by simp
  from status_transition_frame [of "JStr ''bogus''" "''8f3a1c19a2b3c4d5e''" booked_file] a
  have second: "patch_api_admin_requests ''8f3a1c19a2b3c4d5e'' (JStr ''bogus'') booked_file =
     (Inl (HttpError 400 ''Invalid status.''), booked_file)"
    by blast
  from status_transition_frame [of "JStr ''confirmed''" "''0000''" booked_file] a b
  have "fst (patch_api_admin_requests ''0000'' (JStr ''confirmed'') booked_file) =
     Inl (HttpError 404 ''Not found.'')"
    by blast
  with first second show ?thesis by blast
qed

section \<open>Failures write nothing\<close>

text \<open>
  Claim C5. When a creation or a status transition answers with an error, the file
  is the one the call was given, or that file after the read alone, and a read
  gives the same rows as before the call: rows are only written on success.
\<close>

theorem atomic_on_error:
  "(post_api_requests e b f = (Inl err, f') \<longrightarrow>
      (f' = f \<or> f' = snd (readRequestsSafe f)) \<and>
      fst (readRequestsSafe f') = fst (readRequestsSafe f)) \<and>
   (patch_api_admin_requests ident st f = (Inl err, f') \<longrightarrow>
      (f' = f \<or> f' = snd (readRequestsSafe f)) \<and>
      fst (readRequestsSafe f') = fst (readRequestsSafe f))"
  by (auto simp add: post_api_requests_def patch_api_admin_requests_def split_beta Let_def
      readRequestsSafe_again split: if_splits option.splits)

text \<open>A refused double booking and the rows after it.\<close>

theorem atomic_on_error_witness:
  "post_api_requests later_env sample_body booked_file =
     (Inl (HttpError 409 ''That date/time is already booked.''), booked_file) \<and>
   fst (readRequestsSafe booked_file) = [newRequest sample_env sample_body]"
proof -
  have "conflict (fst (readRequestsSafe booked_file))
          (makeDateTimeKey (date sample_body) (time sample_body))"
    by (simp add: booked_file_def conflict_Cons sample_row_json newRequest_fields)
  then have p: "post_api_requests later_env sample_body booked_file =
     (Inl (HttpError 409 ''That date/time is already booked.''), booked_file)"
    using post_conflict [of sample_body booked_file later_env] sample_body_valid
    by (simp add: booked_file_def)
  with atomic_on_error [of later_env sample_body booked_file
      "HttpError 409 ''That date/time is already booked.''" booked_file]
  have "fst (readRequestsSafe booked_file) = fst (readRequestsSafe booked_file)"
    by blast
  with p show ?thesis
    by (simp add: booked_file_def sample_row_json)
qed
end
